theory Spec2Isabelle
  imports Complex_Main "HOL-Library.Char_ord" "HOL-Library.List_Lexorder"
    "HOL-Library.Product_Lexorder"
begin

text \<open>
  NetGuard's virtual SOC: the flow aggregator of \<open>virtual_soc/extractor.py\<close> (flow
  keys, flow records, feature derivation, the flow table shared by the capture thread and
  the timeout checker) and the hybrid decision engine of \<open>virtual_soc/ids_engine.py\<close>
  (binary gate, rule engine, multi-class resolver, fusion, event history). Numbers are
  reals where Python has floats or integers; the classifiers loaded from disk are
  parameters.
\<close>

section \<open>Python values\<close>

text \<open>
  Exceptions are values. \<open>ModelError\<close> stands for whatever a pickled classifier object
  raises from inside \<open>transform\<close> or \<open>predict_proba\<close>; \<open>KeyboardInterrupt\<close> occurs in
  the extractor only.
\<close>

datatype pyexc = ZeroDivisionError | KeyError | ValueError | ModelError | KeyboardInterrupt

datatype http_error = HTTPException nat pyexc

text \<open>
  A Python float: a finite number, an infinity or NaN. Finite floats are modelled as
  reals; rounding and signed zeros are not modelled.
\<close>

datatype pyfloat = Fin real | PosInf | NegInf | NaN

fun py_eq :: "pyfloat \<Rightarrow> pyfloat \<Rightarrow> bool" where
  "py_eq (Fin a) (Fin b) = (a = b)"
| "py_eq PosInf PosInf = True"
| "py_eq NegInf NegInf = True"
| "py_eq _ _ = False"

fun py_lt :: "pyfloat \<Rightarrow> pyfloat \<Rightarrow> bool" where
  "py_lt NaN _ = False"
| "py_lt _ NaN = False"
| "py_lt (Fin a) (Fin b) = (a < b)"
| "py_lt NegInf NegInf = False"
| "py_lt NegInf _ = True"
| "py_lt _ NegInf = False"
| "py_lt PosInf _ = False"
| "py_lt _ PosInf = True"

definition py_le :: "pyfloat \<Rightarrow> pyfloat \<Rightarrow> bool" where
  "py_le a b = (py_lt a b \<or> py_eq a b)"

definition py_gt :: "pyfloat \<Rightarrow> pyfloat \<Rightarrow> bool" where
  "py_gt a b = py_lt b a"

definition py_ge :: "pyfloat \<Rightarrow> pyfloat \<Rightarrow> bool" where
  "py_ge a b = py_le b a"

fun py_add :: "pyfloat \<Rightarrow> pyfloat \<Rightarrow> pyfloat" where
  "py_add NaN _ = NaN"
| "py_add _ NaN = NaN"
| "py_add (Fin a) (Fin b) = Fin (a + b)"
| "py_add PosInf NegInf = NaN"
| "py_add NegInf PosInf = NaN"
| "py_add PosInf _ = PosInf"
| "py_add _ PosInf = PosInf"
| "py_add NegInf _ = NegInf"
| "py_add _ NegInf = NegInf"

fun py_sign :: "pyfloat \<Rightarrow> int" where
  "py_sign (Fin a) = (if a < 0 then -1 else if a = 0 then 0 else 1)"
| "py_sign PosInf = 1"
| "py_sign NegInf = -1"
| "py_sign NaN = 0"

definition signed_inf :: "int \<Rightarrow> pyfloat" where
  "signed_inf s = (if s = 0 then NaN else if s < 0 then NegInf else PosInf)"

fun py_mul :: "pyfloat \<Rightarrow> pyfloat \<Rightarrow> pyfloat" where
  "py_mul NaN _ = NaN"
| "py_mul _ NaN = NaN"
| "py_mul (Fin a) (Fin b) = Fin (a * b)"
| "py_mul a b = signed_inf (py_sign a * py_sign b)"

text \<open>True division \<open>a / b\<close>: a zero divisor raises, whatever the dividend.\<close>

fun py_truediv :: "pyfloat \<Rightarrow> pyfloat \<Rightarrow> pyexc + pyfloat" where
  "py_truediv a (Fin b) =
     (if b = 0 then Inl ZeroDivisionError
      else case a of
        Fin x \<Rightarrow> Inr (Fin (x / b))
      | NaN \<Rightarrow> Inr NaN
      | _ \<Rightarrow> Inr (signed_inf (py_sign a * py_sign (Fin b))))"
| "py_truediv _ NaN = Inr NaN"
| "py_truediv (Fin a) _ = Inr (Fin 0)"
| "py_truediv _ _ = Inr NaN"

text \<open>\<open>x in [a, b, ...]\<close> on numbers compares with \<open>==\<close>.\<close>

definition py_in :: "pyfloat \<Rightarrow> real list \<Rightarrow> bool" where
  "py_in x xs = (\<exists>a \<in> set xs. py_eq x (Fin a))"

text \<open>
  \<open>np.nan_to_num(X, nan=0.0, posinf=0.0, neginf=0.0)\<close>, and the same effect of
  \<open>df.replace([np.inf, -np.inf], 0).fillna(0)\<close>, on one entry.
\<close>

fun nan_to_num :: "pyfloat \<Rightarrow> real" where
  "nan_to_num (Fin x) = x"
| "nan_to_num PosInf = 0"
| "nan_to_num NegInf = 0"
| "nan_to_num NaN = 0"

section \<open>ids\_engine.py: the hybrid decision engine\<close>

text \<open>
  The request body \<open>FlowData.features\<close> is a dict from names to values. Its numeric
  entries are the map \<open>features\<close>; the two string entries \<open>src_ip\<close> and \<open>dst_ip\<close>
  that the extractor adds are kept apart, since no numeric code path reads them.
\<close>

record flow_data =
  features :: "string \<rightharpoonup> pyfloat"
  meta_src_ip :: "string option"
  meta_dst_ip :: "string option"

text \<open>\<open>features.get(name, default)\<close>\<close>

definition dict_get :: "(string \<rightharpoonup> pyfloat) \<Rightarrow> string \<Rightarrow> pyfloat \<Rightarrow> pyfloat" where
  "dict_get fs k d = (case fs k of Some v \<Rightarrow> v | None \<Rightarrow> d)"

definition ATTACK_THRESHOLD :: real where
  "ATTACK_THRESHOLD = 0.25"

definition CONFIDENT_BENIGN_THRESHOLD :: real where
  "CONFIDENT_BENIGN_THRESHOLD = 0.80"

text \<open>
  The binary classifier as loaded from the pickles: \<open>BINARY_FEATURE_NAMES\<close>, and
  \<open>BINARY_SCALER.transform\<close> followed by \<open>BINARY_MODEL.predict_proba\<close> read at
  \<open>ATTACK_IDX\<close> and \<open>BENIGN_IDX\<close>, which gives \<open>(attack_prob, benign_prob)\<close> or
  raises. \<open>BINARY_MODEL\<close> is \<open>None\<close> when loading failed.
\<close>

record binary_model =
  BINARY_FEATURE_NAMES :: "string list"
  binary_predict_proba :: "real list \<Rightarrow> pyexc + real \<times> real"

text \<open>
  The multi-class classifier: \<open>MULTICLASS_PREPROCESSOR_FEATURES\<close>, and the rest of the
  \<open>try\<close> body of \<open>classify_attack_type_ml\<close> (transform, feature selection,
  \<open>predict_proba\<close>, argmax and top 3) on the sanitized input row, which gives
  \<open>(attack_type, confidence, top3)\<close> or raises.
\<close>

record multiclass_model =
  MULTICLASS_PREPROCESSOR_FEATURES :: "string list"
  multiclass_predict :: "real list \<Rightarrow> pyexc + string \<times> real \<times> (string \<times> real) list"

record engine =
  BINARY_MODEL :: "binary_model option"
  MULTICLASS_MODEL :: "multiclass_model option"

text \<open>What a call of \<open>classify_attack_type_ml\<close> returns: a tuple of two or of three.\<close>

datatype ml_result =
  Tuple2 string real
| Tuple3 string real "(string \<times> real) list"

definition classify_attack_type_ml :: "multiclass_model option \<Rightarrow> (string \<rightharpoonup> pyfloat) \<Rightarrow> ml_result" where
  "classify_attack_type_ml mm fs =
     (case mm of
        None \<Rightarrow> Tuple2 ''Unknown'' 0.5
      | Some m \<Rightarrow>
          (case multiclass_predict m
                  (map (\<lambda>feat. nan_to_num (dict_get fs feat (Fin 0)))
                     (MULTICLASS_PREPROCESSOR_FEATURES m)) of
             Inr (attack_type, confidence, top3) \<Rightarrow> Tuple3 attack_type confidence top3
           | Inl e \<Rightarrow> Tuple3 ''Unknown'' 0.5 []))"

text \<open>
  \<open>rule_based_classification\<close>: the checks in source order; a nested \<open>if\<close> whose body
  returns is one conjunction. The reads of \<open>FIN Flag Count\<close>, \<open>Fwd Packets/s\<close> and
  \<open>Init_Win_bytes_backward\<close> are never used and are left out.
\<close>

definition rule_based_classification :: "(string \<rightharpoonup> pyfloat) \<Rightarrow> pyexc + string \<times> real" where
  "rule_based_classification fs =
    (let dst_port = dict_get fs ''Destination Port'' (Fin 0);
         syn_count = dict_get fs ''SYN Flag Count'' (Fin 0);
         rst_count = dict_get fs ''RST Flag Count'' (Fin 0);
         ack_count = dict_get fs ''ACK Flag Count'' (Fin 0);
         psh_count = dict_get fs ''PSH Flag Count'' (Fin 0);
         fwd_packets = dict_get fs ''Total Fwd Packets'' (Fin 0);
         bwd_packets = dict_get fs ''Total Backward Packets'' (Fin 0);
         fwd_bytes = dict_get fs ''Total Length of Fwd Packets'' (Fin 0);
         bwd_bytes = dict_get fs ''Total Length of Bwd Packets'' (Fin 0);
         flow_duration = dict_get fs ''Flow Duration'' (Fin 1);
         total_packets = py_add fwd_packets bwd_packets
     in case (if py_gt flow_duration (Fin 0)
              then (case py_truediv flow_duration (Fin 1000000) of
                      Inl e \<Rightarrow> Inl e
                    | Inr secs \<Rightarrow> py_truediv total_packets secs)
              else Inr fwd_packets) of
          Inl e \<Rightarrow> Inl e
        | Inr pps \<Rightarrow>
      (let is_asymmetric = (py_eq bwd_packets (Fin 0) \<or> py_gt fwd_packets (py_mul bwd_packets (Fin 2)));
           is_very_asymmetric = (py_eq bwd_packets (Fin 0) \<or> py_gt fwd_packets (py_mul bwd_packets (Fin 5)))
       in Inr (
         if py_in dst_port [80, 443, 8080] \<and> py_ge syn_count (Fin 2) \<and> is_very_asymmetric
           then (''DDoS'', 0.90)
         else if py_in dst_port [80, 443, 8080] \<and> py_ge fwd_packets (Fin 2) \<and> py_ge syn_count (Fin 1)
                 \<and> is_asymmetric \<and> py_le ack_count syn_count
           then (''DDoS'', 0.85)
         else if py_in dst_port [80, 443, 8080] \<and> py_gt pps (Fin 20)
           then (''DDoS'', 0.80)
         else if py_gt pps (Fin 50) \<and> is_asymmetric
           then (''DDoS'', 0.85)
         else if py_eq dst_port (Fin 80) \<and> py_ge psh_count (Fin 3) \<and> py_ge fwd_packets (Fin 5)
           then (''DoS Hulk'', 0.80)
         else if py_in dst_port [80, 443] \<and> py_gt flow_duration (Fin 30000000)
                 \<and> py_ge fwd_packets (Fin 2) \<and> py_lt pps (Fin 5)
           then (''DoS slowloris'', 0.75)
         else if py_eq dst_port (Fin 80) \<and> py_ge psh_count (Fin 5) \<and> py_ge fwd_packets (Fin 10)
           then (''DoS GoldenEye'', 0.75)
         else if py_ge syn_count (Fin 1) \<and> py_ge rst_count (Fin 1)
                 \<and> py_le fwd_packets (Fin 3) \<and> py_lt flow_duration (Fin 2000000)
           then (''PortScan'', 0.85)
         else if py_ge syn_count (Fin 1) \<and> py_eq bwd_packets (Fin 0) \<and> py_le fwd_packets (Fin 2)
                 \<and> \<not> py_in dst_port [80, 443, 8080]
           then (''PortScan'', 0.80)
         else if py_eq dst_port (Fin 22) \<and> (py_ge fwd_packets (Fin 3) \<or> py_ge syn_count (Fin 2))
           then (''SSH-Patator'', 0.85)
         else if py_eq dst_port (Fin 21) \<and> (py_ge fwd_packets (Fin 3) \<or> py_ge syn_count (Fin 2))
           then (''FTP-Patator'', 0.85)
         else if py_eq dst_port (Fin 23) \<and> py_ge fwd_packets (Fin 3)
           then (''Telnet Brute Force'', 0.80)
         else if py_eq dst_port (Fin 3389) \<and> py_ge fwd_packets (Fin 3)
           then (''RDP Brute Force'', 0.80)
         else if py_in dst_port [80, 443, 8080, 8443] \<and> py_ge psh_count (Fin 3)
                 \<and> py_gt fwd_bytes (Fin 1000)
           then (''Web Attack'', 0.70)
         else if py_gt flow_duration (Fin 30000000) \<and> py_ge fwd_packets (Fin 3)
                 \<and> py_gt pps (Fin 0.5) \<and> py_lt pps (Fin 10)
           then (''Bot'', 0.65)
         else if py_gt dst_port (Fin 10000) \<and> py_gt fwd_bytes (Fin 5000)
           then (''Infiltration'', 0.60)
         else if py_eq dst_port (Fin 443) \<and> py_gt bwd_bytes (py_mul fwd_bytes (Fin 10))
           then (''Heartbleed'', 0.65)
         else if py_in dst_port [80, 443, 8080] \<and> is_asymmetric
           then (''DDoS'', 0.70)
         else if py_in dst_port [22, 21, 23, 3389] \<and> py_ge fwd_packets (Fin 2)
           then (''Brute Force'', 0.65)
         else (''Unknown Attack'', 0.50))))"

text \<open>
  \<open>predict_flow\<close>, step 1. The alternative names of a model feature, in the order of
  the dict literal \<open>feature_map\<close>.
\<close>

definition feature_map :: "(string \<times> string) list" where
  "feature_map =
     [(''Flow Duration'', ''Flow Duration''),
      (''Total Fwd Packets'', ''Total Fwd Packet''),
      (''Total Backward Packets'', ''Total Bwd packets''),
      (''Total Length of Fwd Packets'', ''Total Length of Fwd Packet''),
      (''Total Length of Bwd Packets'', ''Total Length of Bwd Packet'')]"

text \<open>
  The inner \<open>for old_name, new_name in feature_map.items()\<close> loop: the first pair
  whose new name is the model's and whose old name is in the request overrides the value
  and breaks.
\<close>

fun try_alternative_names :: "(string \<rightharpoonup> pyfloat) \<Rightarrow> string \<Rightarrow> (string \<times> string) list \<Rightarrow> pyfloat \<Rightarrow> pyfloat" where
  "try_alternative_names fs feat_name [] value = value"
| "try_alternative_names fs feat_name ((old_name, new_name) # rest) value =
     (if new_name = feat_name
      then (case fs old_name of
              Some v \<Rightarrow> v
            | None \<Rightarrow> try_alternative_names fs feat_name rest value)
      else try_alternative_names fs feat_name rest value)"

definition feature_value :: "(string \<rightharpoonup> pyfloat) \<Rightarrow> string \<Rightarrow> pyfloat" where
  "feature_value fs feat_name =
     try_alternative_names fs feat_name feature_map (dict_get fs feat_name (Fin 0))"

definition feature_vector :: "binary_model \<Rightarrow> (string \<rightharpoonup> pyfloat) \<Rightarrow> real list" where
  "feature_vector bm fs = map (\<lambda>feat_name. nan_to_num (feature_value fs feat_name)) (BINARY_FEATURE_NAMES bm)"

text \<open>Step 1 as a whole: \<open>(is_attack, binary_confidence, attack_prob)\<close>.\<close>

definition binary_gate :: "binary_model option \<Rightarrow> (string \<rightharpoonup> pyfloat) \<Rightarrow> pyexc + bool \<times> real \<times> real" where
  "binary_gate bmo fs =
     (case bmo of
        None \<Rightarrow> Inr (False, 0.5, 0.0)
      | Some bm \<Rightarrow>
          (case binary_predict_proba bm (feature_vector bm fs) of
             Inl e \<Rightarrow> Inl e
           | Inr (attack_prob, benign_prob) \<Rightarrow>
               Inr (attack_prob > ATTACK_THRESHOLD \<or> benign_prob < CONFIDENT_BENIGN_THRESHOLD,
                    max attack_prob benign_prob,
                    attack_prob)))"

text \<open>
  Step 2. The \<open>if\<close>/\<open>elif\<close>/\<open>else\<close> that chooses between the rule result and
  the multi-class result: \<open>(attack_type, type_confidence, detection_method)\<close>.
\<close>

definition fuse :: "string \<Rightarrow> real \<Rightarrow> string \<Rightarrow> real \<Rightarrow> string \<times> real \<times> string" where
  "fuse rule_type rule_conf ml_type ml_conf =
     (if rule_conf \<ge> 0.70 \<and> rule_type \<noteq> ''Unknown Attack''
        then (rule_type, rule_conf, ''rules'')
      else if ml_type \<noteq> ''BENIGN'' \<and> ml_conf > 0.30
        then (ml_type, ml_conf, ''ml-multiclass'')
      else (rule_type, rule_conf, ''rules''))"

text \<open>
  The calls \<open>predict_flow\<close> makes to the two attack-type classifiers are recorded in
  call order, to state which of them a request reached.
\<close>

datatype call = RuleEngine | MulticlassResolver

record step2 =
  s2_attack_type :: string
  s2_type_confidence :: real
  s2_detection_method :: string
  s2_ml_attack_type :: string
  s2_is_attack :: bool

text \<open>
  \<open>ml_type, ml_conf, top3 = classify_attack_type_ml(...)\<close> raises \<open>ValueError\<close> on a
  tuple of two.
\<close>

definition attack_type_classification ::
    "multiclass_model option \<Rightarrow> (string \<rightharpoonup> pyfloat) \<Rightarrow> bool \<Rightarrow> real \<Rightarrow> (pyexc + step2) \<times> call list" where
  "attack_type_classification mm fs is_attack attack_prob =
     (if is_attack \<or> attack_prob > 0.20 then
        (case rule_based_classification fs of
           Inl e \<Rightarrow> (Inl e, [RuleEngine])
         | Inr (rule_type, rule_conf) \<Rightarrow>
             (case classify_attack_type_ml mm fs of
                Tuple2 _ _ \<Rightarrow> (Inl ValueError, [RuleEngine, MulticlassResolver])
              | Tuple3 ml_type ml_conf top3 \<Rightarrow>
                  (case fuse rule_type rule_conf ml_type ml_conf of
                     (attack_type, type_confidence, detection_method) \<Rightarrow>
                       (Inr \<lparr>s2_attack_type = attack_type,
                             s2_type_confidence = type_confidence,
                             s2_detection_method = detection_method,
                             s2_ml_attack_type = ml_type,
                             s2_is_attack = True\<rparr>,
                        [RuleEngine, MulticlassResolver]))))
      else (Inr \<lparr>s2_attack_type = ''BENIGN'',
                 s2_type_confidence = 1.0,
                 s2_detection_method = ''ml'',
                 s2_ml_attack_type = ''BENIGN'',
                 s2_is_attack = is_attack\<rparr>, []))"

record event =
  timestamp :: string
  ev_src_ip :: string
  ev_dst_ip :: string
  ev_dst_port :: pyfloat
  label :: string
  attack_type :: string
  confidence :: real
  is_malicious :: bool
  detection_method :: string
  ml_attack_prob :: real
  ml_attack_type :: string
  model :: string

text \<open>\<open>EVENT_HISTORY = deque(maxlen=100)\<close>, leftmost (oldest) entry first.\<close>

definition EVENT_HISTORY_MAXLEN :: nat where
  "EVENT_HISTORY_MAXLEN = 100"

definition deque_append :: "nat \<Rightarrow> 'a list \<Rightarrow> 'a \<Rightarrow> 'a list" where
  "deque_append maxlen d x =
     (if maxlen = 0 then []
      else if length d \<ge> maxlen then tl d @ [x]
      else d @ [x])"

text \<open>
  \<open>predict_flow\<close>: the response or the \<open>HTTPException(400)\<close> of the \<open>except\<close>
  clause, the new \<open>EVENT_HISTORY\<close>, and the classifier calls made. \<open>now\<close> is
  \<open>datetime.now().isoformat()\<close>.
\<close>

definition predict_flow ::
    "engine \<Rightarrow> string \<Rightarrow> flow_data \<Rightarrow> event list \<Rightarrow> (http_error + event) \<times> event list \<times> call list" where
  "predict_flow eng now data history =
     (let src_ip = (case meta_src_ip data of Some s \<Rightarrow> s | None \<Rightarrow> ''unknown'');
          dst_ip = (case meta_dst_ip data of Some s \<Rightarrow> s | None \<Rightarrow> ''unknown'');
          dst_port = dict_get (features data) ''Destination Port'' (Fin 0)
      in case binary_gate (BINARY_MODEL eng) (features data) of
           Inl e \<Rightarrow> (Inl (HTTPException 400 e), history, [])
         | Inr (is_attack0, binary_confidence, attack_prob) \<Rightarrow>
             (case attack_type_classification (MULTICLASS_MODEL eng) (features data) is_attack0 attack_prob of
                (Inl e, calls) \<Rightarrow> (Inl (HTTPException 400 e), history, calls)
              | (Inr r, calls) \<Rightarrow>
                  (let is_attack = s2_is_attack r;
                       ev = \<lparr>timestamp = now,
                             ev_src_ip = src_ip,
                             ev_dst_ip = dst_ip,
                             ev_dst_port = dst_port,
                             label = (if is_attack then ''ATTACK'' else ''BENIGN''),
                             attack_type = (if is_attack then s2_attack_type r else ''BENIGN''),
                             confidence = (if is_attack then s2_type_confidence r else binary_confidence),
                             is_malicious = is_attack,
                             detection_method = s2_detection_method r,
                             ml_attack_prob = attack_prob,
                             ml_attack_type = s2_ml_attack_type r,
                             model = ''Hybrid-v3''\<rparr>
                   in (Inr ev, deque_append EVENT_HISTORY_MAXLEN history ev, calls))))"

text \<open>\<open>get_events\<close>: \<open>list(EVENT_HISTORY)\<close>.\<close>

definition get_events :: "event list \<Rightarrow> event list" where
  "get_events history = history"

section \<open>extractor.py: flow records and features\<close>

definition FLOW_TIMEOUT :: real where
  "FLOW_TIMEOUT = 2.0"

definition MIN_PACKETS :: nat where
  "MIN_PACKETS = 2"

text \<open>
  A captured scapy packet, as far as the extractor reads it: the IP layer
  (\<open>ip.src\<close>, \<open>ip.dst\<close>), the TCP layer (\<open>sport\<close>, \<open>dport\<close>, \<open>str(flags)\<close>,
  \<open>window\<close>, \<open>dataofs\<close>) or the UDP layer (\<open>sport\<close>, \<open>dport\<close>),
  \<open>len(packet)\<close> and \<open>float(packet.time)\<close>.
\<close>

datatype transport =
  TCPLayer nat nat string nat "nat option"
| UDPLayer nat nat
| NoTransport

record packet =
  ip :: "(string \<times> string) option"
  transport :: transport
  pkt_len :: nat
  pkt_time :: real

text \<open>\<open>class CICFlow\<close>. Times are seconds, inter-arrival times microseconds.\<close>

record CICFlow =
  src_ip :: string
  dst_ip :: string
  src_port :: nat
  dst_port :: nat
  protocol :: string
  start_time :: real
  last_seen :: real
  fwd_packets :: nat
  bwd_packets :: nat
  fwd_bytes :: nat
  bwd_bytes :: nat
  fwd_pkt_lengths :: "nat list"
  bwd_pkt_lengths :: "nat list"
  all_pkt_lengths :: "nat list"
  flow_iat :: "real list"
  fwd_iat :: "real list"
  bwd_iat :: "real list"
  last_fwd_time :: "real option"
  last_bwd_time :: "real option"
  last_pkt_time :: "real option"
  fin_count :: nat
  syn_count :: nat
  rst_count :: nat
  psh_count :: nat
  ack_count :: nat
  urg_count :: nat
  cwe_count :: nat
  ece_count :: nat
  fwd_psh_count :: nat
  fwd_urg_count :: nat
  init_win_fwd :: int
  init_win_bwd :: int
  fwd_header_len :: nat
  bwd_header_len :: nat
  active_times :: "real list"
  idle_times :: "real list"
  current_active_start :: "real option"
  fwd_data_pkts :: nat
  min_seg_size_fwd :: nat

text \<open>
  \<open>CICFlow.__init__\<close>; \<open>t_start\<close> and \<open>t_seen\<close> are the values of its two
  \<open>time.time()\<close> calls.
\<close>

definition CICFlow_init :: "string \<Rightarrow> string \<Rightarrow> nat \<Rightarrow> nat \<Rightarrow> string \<Rightarrow> real \<Rightarrow> real \<Rightarrow> CICFlow" where
  "CICFlow_init sip dip sp dp proto t_start t_seen =
     \<lparr>src_ip = sip, dst_ip = dip, src_port = sp, dst_port = dp, protocol = proto,
      start_time = t_start, last_seen = t_seen,
      fwd_packets = 0, bwd_packets = 0,
      fwd_bytes = 0, bwd_bytes = 0,
      fwd_pkt_lengths = [], bwd_pkt_lengths = [], all_pkt_lengths = [],
      flow_iat = [], fwd_iat = [], bwd_iat = [],
      last_fwd_time = None, last_bwd_time = None, last_pkt_time = None,
      fin_count = 0, syn_count = 0, rst_count = 0, psh_count = 0, ack_count = 0,
      urg_count = 0, cwe_count = 0, ece_count = 0, fwd_psh_count = 0, fwd_urg_count = 0,
      init_win_fwd = -1, init_win_bwd = -1,
      fwd_header_len = 0, bwd_header_len = 0,
      active_times = [], idle_times = [], current_active_start = None,
      fwd_data_pkts = 0, min_seg_size_fwd = 0\<rparr>"

text \<open>
  \<open>add_packet\<close>, first block (\<open># Flow IAT\<close>): the flow-wide inter-arrival time and
  the active/idle segmentation.
\<close>

definition add_packet_iat :: "CICFlow \<Rightarrow> real \<Rightarrow> CICFlow" where
  "add_packet_iat self current_time =
     (case last_pkt_time self of
        Some prev \<Rightarrow>
          (let iat = (current_time - prev) * 1000000;
               self = self\<lparr>flow_iat := flow_iat self @ [iat]\<rparr>
           in if iat > 1000000 then
                (let self = (case current_active_start self of
                               Some started \<Rightarrow>
                                 self\<lparr>active_times :=
                                        active_times self @ [(current_time - started) * 1000000]\<rparr>
                             | None \<Rightarrow> self);
                     self = self\<lparr>idle_times := idle_times self @ [iat]\<rparr>
                 in self\<lparr>current_active_start := Some current_time\<rparr>)
              else
                (if current_active_start self = None
                 then self\<lparr>current_active_start := last_pkt_time self\<rparr>
                 else self))
      | None \<Rightarrow> self\<lparr>current_active_start := Some current_time\<rparr>)"

text \<open>Second block: the per-direction counters, lengths and inter-arrival times.\<close>

definition add_packet_direction :: "CICFlow \<Rightarrow> string \<Rightarrow> nat \<Rightarrow> real \<Rightarrow> CICFlow" where
  "add_packet_direction self direction len current_time =
     (if direction = ''fwd'' then
        (let self = self\<lparr>fwd_packets := fwd_packets self + 1,
                          fwd_bytes := fwd_bytes self + len,
                          fwd_pkt_lengths := fwd_pkt_lengths self @ [len]\<rparr>;
             self = (case last_fwd_time self of
                       Some prev \<Rightarrow> self\<lparr>fwd_iat := fwd_iat self @ [(current_time - prev) * 1000000]\<rparr>
                     | None \<Rightarrow> self);
             self = self\<lparr>last_fwd_time := Some current_time\<rparr>
         in if len > 0 then
              (let self = self\<lparr>fwd_data_pkts := fwd_data_pkts self + 1\<rparr>
               in if min_seg_size_fwd self = 0 \<or> len < min_seg_size_fwd self
                  then self\<lparr>min_seg_size_fwd := len\<rparr>
                  else self)
            else self)
      else
        (let self = self\<lparr>bwd_packets := bwd_packets self + 1,
                          bwd_bytes := bwd_bytes self + len,
                          bwd_pkt_lengths := bwd_pkt_lengths self @ [len]\<rparr>;
             self = (case last_bwd_time self of
                       Some prev \<Rightarrow> self\<lparr>bwd_iat := bwd_iat self @ [(current_time - prev) * 1000000]\<rparr>
                     | None \<Rightarrow> self)
         in self\<lparr>last_bwd_time := Some current_time\<rparr>))"

text \<open>
  Third block (\<open># TCP features\<close>): flag counters, first window, header length. Each
  \<open>if\<close> of the source updates fields that no other one reads, so the sequence of
  conditional increments is written as one record update.
\<close>

definition flag_inc :: "bool \<Rightarrow> nat \<Rightarrow> nat" where
  "flag_inc seen n = (if seen then n + 1 else n)"

definition add_packet_tcp :: "CICFlow \<Rightarrow> string \<Rightarrow> string \<Rightarrow> nat \<Rightarrow> nat option \<Rightarrow> CICFlow" where
  "add_packet_tcp self direction flags window dataofs =
     (let header_len = (case dataofs of
                          Some ofs \<Rightarrow> if ofs \<noteq> 0 then ofs * 4 else 20
                        | None \<Rightarrow> 20)
      in self\<lparr>fin_count := flag_inc (CHR ''F'' \<in> set flags) (fin_count self),
               syn_count := flag_inc (CHR ''S'' \<in> set flags) (syn_count self),
               rst_count := flag_inc (CHR ''R'' \<in> set flags) (rst_count self),
               psh_count := flag_inc (CHR ''P'' \<in> set flags) (psh_count self),
               fwd_psh_count := flag_inc (CHR ''P'' \<in> set flags \<and> direction = ''fwd'') (fwd_psh_count self),
               ack_count := flag_inc (CHR ''A'' \<in> set flags) (ack_count self),
               urg_count := flag_inc (CHR ''U'' \<in> set flags) (urg_count self),
               fwd_urg_count := flag_inc (CHR ''U'' \<in> set flags \<and> direction = ''fwd'') (fwd_urg_count self),
               cwe_count := flag_inc (CHR ''C'' \<in> set flags) (cwe_count self),
               ece_count := flag_inc (CHR ''E'' \<in> set flags) (ece_count self),
               init_win_fwd := (if direction = ''fwd'' \<and> init_win_fwd self = -1
                                then int window else init_win_fwd self),
               init_win_bwd := (if \<not> (direction = ''fwd'' \<and> init_win_fwd self = -1)
                                   \<and> direction = ''bwd'' \<and> init_win_bwd self = -1
                                then int window else init_win_bwd self),
               fwd_header_len := (if direction = ''fwd'' then fwd_header_len self + header_len
                                  else fwd_header_len self),
               bwd_header_len := (if direction = ''fwd'' then bwd_header_len self
                                  else bwd_header_len self + header_len)\<rparr>)"

text \<open>\<open>add_packet\<close>; \<open>now\<close> is the value of its \<open>time.time()\<close> call.\<close>

definition add_packet :: "CICFlow \<Rightarrow> packet \<Rightarrow> string \<Rightarrow> real \<Rightarrow> real \<Rightarrow> CICFlow" where
  "add_packet self pkt direction ptime now =
     (let current_time = ptime;
          len = pkt_len pkt;
          self = self\<lparr>last_seen := now\<rparr>;
          self = add_packet_iat self current_time;
          self = self\<lparr>last_pkt_time := Some current_time\<rparr>;
          self = self\<lparr>all_pkt_lengths := all_pkt_lengths self @ [len]\<rparr>;
          self = add_packet_direction self direction len current_time
      in case transport pkt of
           TCPLayer sport dport flags window dataofs \<Rightarrow>
             add_packet_tcp self direction flags window dataofs
         | _ \<Rightarrow> self)"

subsection \<open>Feature derivation\<close>









text \<open>\<open>duration\<close> at the head of \<open>get_features\<close>, in microseconds.\<close>

definition flow_duration :: "CICFlow \<Rightarrow> real" where
  "flow_duration self =
     (let duration = (last_seen self - start_time self) * 1000000
      in if duration = 0 then 1 else duration)"



text \<open>The keys of that dict literal, in order: the 70 feature names.\<close>

definition FEATURE_NAMES :: "string list" where
  "FEATURE_NAMES =
     [''Destination Port'', ''Flow Duration'', ''Total Fwd Packets'', ''Total Backward Packets'',
      ''Total Length of Fwd Packets'', ''Total Length of Bwd Packets'',
      ''Fwd Packet Length Max'', ''Fwd Packet Length Min'', ''Fwd Packet Length Mean'',
      ''Fwd Packet Length Std'', ''Bwd Packet Length Max'', ''Bwd Packet Length Min'',
      ''Bwd Packet Length Mean'', ''Bwd Packet Length Std'', ''Flow Bytes/s'', ''Flow Packets/s'',
      ''Flow IAT Mean'', ''Flow IAT Std'', ''Flow IAT Max'', ''Flow IAT Min'',
      ''Fwd IAT Total'', ''Fwd IAT Mean'', ''Fwd IAT Std'', ''Fwd IAT Max'', ''Fwd IAT Min'',
      ''Bwd IAT Total'', ''Bwd IAT Mean'', ''Bwd IAT Std'', ''Bwd IAT Max'', ''Bwd IAT Min'',
      ''Fwd PSH Flags'', ''Fwd URG Flags'', ''Fwd Header Length'', ''Bwd Header Length'',
      ''Fwd Packets/s'', ''Bwd Packets/s'', ''Min Packet Length'', ''Max Packet Length'',
      ''Packet Length Mean'', ''Packet Length Std'', ''Packet Length Variance'',
      ''FIN Flag Count'', ''SYN Flag Count'', ''RST Flag Count'', ''PSH Flag Count'',
      ''ACK Flag Count'', ''URG Flag Count'', ''CWE Flag Count'', ''ECE Flag Count'',
      ''Down/Up Ratio'', ''Average Packet Size'', ''Avg Fwd Segment Size'',
      ''Avg Bwd Segment Size'', ''Fwd Header Length.1'', ''Subflow Fwd Packets'',
      ''Subflow Fwd Bytes'', ''Subflow Bwd Packets'', ''Subflow Bwd Bytes'',
      ''Init_Win_bytes_forward'', ''Init_Win_bytes_backward'', ''act_data_pkt_fwd'',
      ''min_seg_size_forward'', ''Active Mean'', ''Active Std'', ''Active Max'', ''Active Min'',
      ''Idle Mean'', ''Idle Std'', ''Idle Max'', ''Idle Min'']"



subsection \<open>Flow keys\<close>

text \<open>\<open>get_flow_key\<close>: \<open>tuple(sorted([(src_ip, src_port), (dst_ip, dst_port)]))\<close>.\<close>

definition get_flow_key :: "string \<Rightarrow> nat \<Rightarrow> string \<Rightarrow> nat \<Rightarrow> (string \<times> nat) list" where
  "get_flow_key sip sp dip dp = sort [(sip, sp), (dip, dp)]"

text \<open>
  The head of \<open>packet_handler\<close>: a packet without an IP layer, or with neither a TCP nor
  a UDP layer, is ignored; otherwise its endpoints and \<open>proto\<close>, and its flow key.
\<close>

definition packet_endpoints :: "packet \<Rightarrow> (string \<times> string \<times> nat \<times> nat \<times> string) option" where
  "packet_endpoints pkt =
     (case ip pkt of
        None \<Rightarrow> None
      | Some (sip, dip) \<Rightarrow>
          (case transport pkt of
             TCPLayer sport dport flags window dataofs \<Rightarrow> Some (sip, dip, sport, dport, ''TCP'')
           | UDPLayer sport dport \<Rightarrow> Some (sip, dip, sport, dport, ''UDP'')
           | NoTransport \<Rightarrow> None))"

definition packet_flow_key :: "packet \<Rightarrow> (string \<times> nat) list option" where
  "packet_flow_key pkt =
     (case packet_endpoints pkt of
        None \<Rightarrow> None
      | Some (sip, dip, sport, dport, proto) \<Rightarrow> Some (get_flow_key sip sport dip dport))"

text \<open>
  A flow record after a sequence of \<open>add_packet\<close> calls, each with its packet, its
  direction and the clock value its \<open>time.time()\<close> call read.
\<close>

fun add_packets :: "CICFlow \<Rightarrow> (packet \<times> string \<times> real) list \<Rightarrow> CICFlow" where
  "add_packets self [] = self"
| "add_packets self ((pkt, direction, now) # rest) =
     add_packets (add_packet self pkt direction (pkt_time pkt) now) rest"

section \<open>extractor.py: the flow table and its two threads\<close>

text \<open>
  \<open>active_flows\<close> is a dict from flow keys to \<open>CICFlow\<close> objects, shared by the
  capture thread (\<open>sniff\<close> calling \<open>packet_handler\<close>, then the shutdown loop of
  \<open>main\<close>) and the daemon thread running \<open>flow_timeout_checker\<close>. Objects live in
  a heap and are named by their index in it, so that a thread can hold a record that
  another thread has removed from the table. The dict is a list of pairs in insertion
  order, as a Python dict iterates.
\<close>

type_synonym flow_key = "(string \<times> nat) list"

fun dict_set :: "('k \<times> 'v) list \<Rightarrow> 'k \<Rightarrow> 'v \<Rightarrow> ('k \<times> 'v) list" where
  "dict_set [] k v = [(k, v)]"
| "dict_set ((k', v') # d) k v = (if k' = k then (k, v) # d else (k', v') # dict_set d k v)"

text \<open>\<open>d.pop(k, None)\<close>: the value or \<open>None\<close>, and the dict without the key.\<close>

definition dict_pop :: "('k \<times> 'v) list \<Rightarrow> 'k \<Rightarrow> 'v option \<times> ('k \<times> 'v) list" where
  "dict_pop d k = (map_of d k, filter (\<lambda>(k', v). k' \<noteq> k) d)"

text \<open>Which caller of \<open>send_flow_to_api\<close> handed a record to \<open>get_features\<close>.\<close>

datatype closure_path = EarlyEmit | Timeout | Shutdown

text \<open>The local variables of \<open>packet_handler\<close> once a packet is accepted.\<close>

record handler_locals =
  h_packet :: packet
  h_src_ip :: string
  h_dst_ip :: string
  h_src_port :: nat
  h_dst_port :: nat
  h_proto :: string

definition h_flow_key :: "handler_locals \<Rightarrow> flow_key" where
  "h_flow_key l = get_flow_key (h_src_ip l) (h_src_port l) (h_dst_ip l) (h_dst_port l)"

text \<open>
  Where the capture thread stands: the statement it executes next, with the locals that
  statement reads.
\<close>

datatype main_pc =
    M_sniff
      \<comment> \<open>in \<open>sniff\<close>, between two calls of \<open>packet_handler\<close>\<close>
  | M_check handler_locals
      \<comment> \<open>\<open>if flow_key not in active_flows:\<close>\<close>
  | M_create handler_locals
      \<comment> \<open>\<open>active_flows[flow_key] = CICFlow(...)\<close>\<close>
  | M_fetch handler_locals
      \<comment> \<open>\<open>flow = active_flows[flow_key]\<close>\<close>
  | M_add handler_locals nat
      \<comment> \<open>\<open>direction = ...; flow.add_packet(packet, direction, pkt_time)\<close>\<close>
  | M_test handler_locals nat
      \<comment> \<open>\<open>if flow.fwd_packets + flow.bwd_packets == 2 and flow.syn_count >= 1:\<close>\<close>
  | M_send_pop handler_locals
      \<comment> \<open>in \<open>send_flow_to_api\<close>: \<open>flow = active_flows.pop(flow_key, None)\<close>\<close>
  | M_send_guard handler_locals "nat option"
      \<comment> \<open>in \<open>send_flow_to_api\<close>: \<open>if not flow or ...: return\<close>, then \<open>get_features\<close>\<close>
  | M_flush "flow_key list"
      \<comment> \<open>after \<open>KeyboardInterrupt\<close>: \<open>for key in list(active_flows.keys()):\<close>\<close>
  | M_flush_guard flow_key "nat option" "flow_key list"
      \<comment> \<open>the shutdown loop, in \<open>send_flow_to_api\<close> after its \<open>pop\<close>\<close>
  | M_exit "pyexc option"
      \<comment> \<open>\<open>main\<close> has returned, after the shutdown loop or after \<open>[FATAL]\<close>\<close>

datatype sweeper_pc =
    S_sleep
      \<comment> \<open>\<open>time.sleep(1)\<close>, then the scan for expired keys\<close>
  | S_loop "flow_key list"
      \<comment> \<open>\<open>for key in expired:\<close>\<close>
  | S_guard flow_key "nat option" "flow_key list"
      \<comment> \<open>in \<open>send_flow_to_api\<close> after its \<open>pop\<close>\<close>

text \<open>
  The state: heap, table, the records handed to \<open>get_features\<close> so far (key, object,
  caller), \<open>PACKET_COUNT\<close>, the number of \<open>time.time()\<close> calls made, and the two
  program counters.
\<close>

record system =
  heap :: "CICFlow list"
  active_flows :: "(flow_key \<times> nat) list"
  emitted :: "(flow_key \<times> nat \<times> closure_path) list"
  PACKET_COUNT :: nat
  ticks :: nat
  main_pc :: main_pc
  sweeper_pc :: sweeper_pc

definition initial_system :: system where
  "initial_system =
     \<lparr>heap = [], active_flows = [], emitted = [], PACKET_COUNT = 0, ticks = 0,
      main_pc = M_sniff, sweeper_pc = S_sleep\<rparr>"

definition packets_of :: "CICFlow \<Rightarrow> nat" where
  "packets_of flow = fwd_packets flow + bwd_packets flow"

text \<open>
  \<open>send_flow_to_api\<close> after its \<open>pop\<close>: return when nothing was popped or the record
  holds fewer than \<open>MIN_PACKETS\<close> packets, else hand the record to \<open>get_features\<close>.
  What follows (the HTTP request inside \<open>try\<close>/\<open>except\<close>, printing) touches no
  shared state.
\<close>

definition send_guard :: "closure_path \<Rightarrow> flow_key \<Rightarrow> nat option \<Rightarrow> system \<Rightarrow> system" where
  "send_guard path key popped s =
     (case popped of
        None \<Rightarrow> s
      | Some r \<Rightarrow>
          if packets_of (heap s ! r) < MIN_PACKETS then s
          else s\<lparr>emitted := emitted s @ [(key, r, path)]\<rparr>)"

text \<open>
  \<open>sniff\<close> delivers a packet: the head of \<open>packet_handler\<close>, up to the flow key.
  Nothing happens unless the capture thread is between two packets.
\<close>

definition deliver :: "packet \<Rightarrow> system \<Rightarrow> system" where
  "deliver pkt s =
     (if main_pc s \<noteq> M_sniff then s
      else case ip pkt of
        None \<Rightarrow> s
      | Some addrs \<Rightarrow>
          (let s = s\<lparr>PACKET_COUNT := PACKET_COUNT s + 1\<rparr>
           in case packet_endpoints pkt of
                None \<Rightarrow> s
              | Some (sip, dip, sport, dport, proto) \<Rightarrow>
                  s\<lparr>main_pc := M_check \<lparr>h_packet = pkt, h_src_ip = sip, h_dst_ip = dip,
                                           h_src_port = sport, h_dst_port = dport,
                                           h_proto = proto\<rparr>\<rparr>))"

text \<open>
  \<open>KeyboardInterrupt\<close> reaches the capture thread, wherever it stands in
  \<open>packet_handler\<close>: \<open>main\<close> takes the keys of the table and starts the shutdown loop.
  Raised again inside that loop, it leaves \<open>main\<close>.
\<close>

definition interrupt :: "system \<Rightarrow> system" where
  "interrupt s =
     (case main_pc s of
        M_flush keys \<Rightarrow> s\<lparr>main_pc := M_exit (Some KeyboardInterrupt)\<rparr>
      | M_flush_guard key popped keys \<Rightarrow> s\<lparr>main_pc := M_exit (Some KeyboardInterrupt)\<rparr>
      | M_exit e \<Rightarrow> s
      | _ \<Rightarrow> s\<lparr>main_pc := M_flush (map fst (active_flows s))\<rparr>)"

text \<open>
  One statement of the capture thread. \<open>clock n\<close> is the value of the \<open>n\<close>-th call of
  \<open>time.time()\<close> in the process.
\<close>

definition main_step :: "(nat \<Rightarrow> real) \<Rightarrow> system \<Rightarrow> system" where
  "main_step clock s =
     (case main_pc s of
        M_sniff \<Rightarrow> s
      | M_check l \<Rightarrow>
          (if map_of (active_flows s) (h_flow_key l) = None
           then s\<lparr>main_pc := M_create l\<rparr>
           else s\<lparr>main_pc := M_fetch l\<rparr>)
      | M_create l \<Rightarrow>
          (let flow = CICFlow_init (h_src_ip l) (h_dst_ip l) (h_src_port l) (h_dst_port l) (h_proto l)
                        (clock (ticks s)) (clock (ticks s + 1))
           in s\<lparr>heap := heap s @ [flow],
                 active_flows := dict_set (active_flows s) (h_flow_key l) (length (heap s)),
                 ticks := ticks s + 2,
                 main_pc := M_fetch l\<rparr>)
      | M_fetch l \<Rightarrow>
          (case map_of (active_flows s) (h_flow_key l) of
             None \<Rightarrow> s\<lparr>main_pc := M_exit (Some KeyError)\<rparr>
           | Some r \<Rightarrow> s\<lparr>main_pc := M_add l r\<rparr>)
      | M_add l r \<Rightarrow>
          (let flow = heap s ! r;
               direction = (if (h_src_ip l, h_src_port l) = (src_ip flow, src_port flow)
                            then ''fwd'' else ''bwd'')
           in s\<lparr>heap := (heap s)[r := add_packet flow (h_packet l) direction
                                          (pkt_time (h_packet l)) (clock (ticks s))],
                 ticks := ticks s + 1,
                 main_pc := M_test l r\<rparr>)
      | M_test l r \<Rightarrow>
          (let flow = heap s ! r
           in if fwd_packets flow + bwd_packets flow = 2 \<and> syn_count flow \<ge> 1
              then s\<lparr>main_pc := M_send_pop l\<rparr>
              else s\<lparr>main_pc := M_sniff\<rparr>)
      | M_send_pop l \<Rightarrow>
          (case dict_pop (active_flows s) (h_flow_key l) of
             (popped, table) \<Rightarrow> s\<lparr>active_flows := table, main_pc := M_send_guard l popped\<rparr>)
      | M_send_guard l popped \<Rightarrow>
          (send_guard EarlyEmit (h_flow_key l) popped s)\<lparr>main_pc := M_sniff\<rparr>
      | M_flush [] \<Rightarrow> s\<lparr>main_pc := M_exit None\<rparr>
      | M_flush (key # keys) \<Rightarrow>
          (case dict_pop (active_flows s) key of
             (popped, table) \<Rightarrow> s\<lparr>active_flows := table, main_pc := M_flush_guard key popped keys\<rparr>)
      | M_flush_guard key popped keys \<Rightarrow>
          (send_guard Shutdown key popped s)\<lparr>main_pc := M_flush keys\<rparr>
      | M_exit e \<Rightarrow> s)"

text \<open>
  One statement of \<open>flow_timeout_checker\<close>; the scan for expired keys is one step. A
  daemon thread, it stops when \<open>main\<close> has returned.
\<close>

definition sweeper_step :: "(nat \<Rightarrow> real) \<Rightarrow> system \<Rightarrow> system" where
  "sweeper_step clock s =
     (case main_pc s of
        M_exit e \<Rightarrow> s
      | _ \<Rightarrow>
        (case sweeper_pc s of
           S_sleep \<Rightarrow>
             (let now = clock (ticks s);
                  expired = map fst (filter (\<lambda>(k, r). now - last_seen (heap s ! r) > FLOW_TIMEOUT)
                                       (active_flows s))
              in s\<lparr>ticks := ticks s + 1, sweeper_pc := S_loop expired\<rparr>)
         | S_loop [] \<Rightarrow> s\<lparr>sweeper_pc := S_sleep\<rparr>
         | S_loop (key # keys) \<Rightarrow>
             (case dict_pop (active_flows s) key of
                (popped, table) \<Rightarrow> s\<lparr>active_flows := table, sweeper_pc := S_guard key popped keys\<rparr>)
         | S_guard key popped keys \<Rightarrow>
             (send_guard Timeout key popped s)\<lparr>sweeper_pc := S_loop keys\<rparr>))"

text \<open>
  A schedule is what happens in which order: a packet arrives, the interrupt arrives, or
  one of the two threads executes its next statement.
\<close>

datatype action = Deliver packet | Interrupt | Main | Sweeper

fun step :: "(nat \<Rightarrow> real) \<Rightarrow> action \<Rightarrow> system \<Rightarrow> system" where
  "step clock (Deliver pkt) s = deliver pkt s"
| "step clock Interrupt s = interrupt s"
| "step clock Main s = main_step clock s"
| "step clock Sweeper s = sweeper_step clock s"

fun run :: "(nat \<Rightarrow> real) \<Rightarrow> action list \<Rightarrow> system \<Rightarrow> system" where
  "run clock [] s = s"
| "run clock (a # schedule) s = run clock schedule (step clock a s)"

text \<open>The records a thread has popped and not yet passed through the guard.\<close>

fun main_pending :: "main_pc \<Rightarrow> nat list" where
  "main_pending (M_send_guard l (Some r)) = [r]"
| "main_pending (M_flush_guard key (Some r) keys) = [r]"
| "main_pending _ = []"

fun sweeper_pending :: "sweeper_pc \<Rightarrow> nat list" where
  "sweeper_pending (S_guard key (Some r) keys) = [r]"
| "sweeper_pending _ = []"

text \<open>
  Every record that is in the table, held after a \<open>pop\<close>, or already handed to
  \<open>get_features\<close>, listed once per place where it is.
\<close>

definition emitted_refs :: "system \<Rightarrow> nat list" where
  "emitted_refs s = map (\<lambda>(key, r, path). r) (emitted s)"

definition owned :: "system \<Rightarrow> nat list" where
  "owned s =
     emitted_refs s @ main_pending (main_pc s)
       @ sweeper_pending (sweeper_pc s) @ map snd (active_flows s)"

definition table_invariant :: "system \<Rightarrow> bool" where
  "table_invariant s =
     (distinct (owned s) \<and> list_all (\<lambda>r. r < length (heap s)) (owned s)
      \<and> distinct (map fst (active_flows s)))"

text \<open>
  Every record handed to \<open>get_features\<close> so far exists and holds at least
  \<open>MIN_PACKETS\<close> packets.
\<close>

definition emitted_guarded :: "system \<Rightarrow> bool" where
  "emitted_guarded s =
     list_all (\<lambda>(key, r, path). r < length (heap s) \<and> MIN_PACKETS \<le> packets_of (heap s ! r))
       (emitted s)"

section \<open>Test fixtures\<close>

text \<open>
  Concrete classifiers and requests on which the theorems below are instantiated. The
  fixture classifiers answer with fixed probabilities and, as a fitted model does, raise
  on an input row of the wrong width.
\<close>

definition fixture_zero_features :: "real \<Rightarrow> (string \<rightharpoonup> pyfloat)" where
  "fixture_zero_features port =
     (map_of (map (\<lambda>n. (n, Fin 0)) FEATURE_NAMES))(''Destination Port'' \<mapsto> Fin port)"

definition fixture_scan_features :: "string \<rightharpoonup> pyfloat" where
  "fixture_scan_features =
     map_of [(''Destination Port'', Fin 5555), (''Flow Duration'', Fin 1000),
             (''Total Fwd Packets'', Fin 1), (''Total Backward Packets'', Fin 1),
             (''SYN Flag Count'', Fin 1), (''RST Flag Count'', Fin 1),
             (''ACK Flag Count'', Fin 1), (''Idle Max'', PosInf)]"

definition fixture_binary_model :: "real \<times> real \<Rightarrow> binary_model" where
  "fixture_binary_model probs =
     \<lparr>BINARY_FEATURE_NAMES = [''Flow Duration'', ''Total Fwd Packet'', ''Total Bwd packets'',
                               ''Destination Port'', ''Bwd Bulk Rate Avg'', ''Idle Max''],
      binary_predict_proba = (\<lambda>X. if length X = 6 then Inr probs else Inl ModelError)\<rparr>"

definition fixture_multiclass_model :: "pyexc + string \<times> real \<times> (string \<times> real) list \<Rightarrow> multiclass_model" where
  "fixture_multiclass_model out =
     \<lparr>MULTICLASS_PREPROCESSOR_FEATURES = FEATURE_NAMES,
      multiclass_predict = (\<lambda>X. if length X = 70 then out else Inl ModelError)\<rparr>"

definition fixture_data :: "(string \<rightharpoonup> pyfloat) \<Rightarrow> flow_data" where
  "fixture_data fs = \<lparr>features = fs, meta_src_ip = Some ''10.0.0.5'', meta_dst_ip = Some ''10.0.0.9''\<rparr>"

definition fixture_engine :: "real \<times> real \<Rightarrow> multiclass_model option \<Rightarrow> engine" where
  "fixture_engine probs mm = \<lparr>BINARY_MODEL = Some (fixture_binary_model probs), MULTICLASS_MODEL = mm\<rparr>"

definition fixture_no_models :: engine where
  "fixture_no_models = \<lparr>BINARY_MODEL = None, MULTICLASS_MODEL = None\<rparr>"

text \<open>\<open>EVENT_HISTORY\<close> after one request, and after a second one a second later.\<close>

definition fixture_history_1 :: "event list" where
  "fixture_history_1 =
     fst (snd (predict_flow fixture_no_models ''2024-01-01T00:00:01''
                 (fixture_data fixture_scan_features) []))"

definition fixture_history_2 :: "event list" where
  "fixture_history_2 =
     fst (snd (predict_flow fixture_no_models ''2024-01-01T00:00:02''
                 (fixture_data fixture_scan_features) fixture_history_1))"

definition fixture_udp_packet :: "real \<Rightarrow> packet" where
  "fixture_udp_packet t =
     \<lparr>ip = Some (''10.0.0.5'', ''10.0.0.9''), transport = UDPLayer 5555 53, pkt_len = 60, pkt_time = t\<rparr>"




definition fixture_tcp_packet :: "string \<Rightarrow> nat \<Rightarrow> string \<Rightarrow> nat \<Rightarrow> string \<Rightarrow> real \<Rightarrow> packet" where
  "fixture_tcp_packet sip sport dip dport flags t =
     \<lparr>ip = Some (sip, dip), transport = TCPLayer sport dport flags 8192 (Some 5), pkt_len = 60, pkt_time = t\<rparr>"


definition fixture_client :: "string \<Rightarrow> real \<Rightarrow> packet" where
  "fixture_client flags t = fixture_tcp_packet ''10.0.0.5'' 5555 ''10.0.0.9'' 80 flags t"

definition fixture_server :: "string \<Rightarrow> real \<Rightarrow> packet" where
  "fixture_server flags t = fixture_tcp_packet ''10.0.0.9'' 80 ''10.0.0.5'' 5555 flags t"

definition fixture_key :: flow_key where
  "fixture_key = [(''10.0.0.5'', 5555), (''10.0.0.9'', 80)]"

text \<open>A clock that advances a millisecond per reading up to the eighth, then stands at 10 s.\<close>

definition fixture_clock :: "nat \<Rightarrow> real" where
  "fixture_clock n = (if n < 8 then real n / 1000 else 10)"

text \<open>
  A TCP connection, one thread at a time: SYN and SYN-ACK (the record is emitted early),
  then ACK and a data packet (a second record under the same key), then the timeout
  checker after the flow has gone idle.
\<close>

definition fixture_handshake_schedule :: "action list" where
  "fixture_handshake_schedule =
     [Deliver (fixture_client ''S'' 0), Main, Main, Main, Main, Main,
      Deliver (fixture_server ''SA'' 0.001), Main, Main, Main, Main, Main, Main,
      Deliver (fixture_client ''A'' 0.002), Main, Main, Main, Main, Main,
      Deliver (fixture_client ''PA'' 0.003), Main, Main, Main, Main,
      Sweeper, Sweeper, Sweeper, Sweeper]"

text \<open>A clock that stands at 0 for three readings, then at 3 s.\<close>

definition fixture_late_clock :: "nat \<Rightarrow> real" where
  "fixture_late_clock n = (if n < 3 then 0 else 3)"

text \<open>
  A SYN, and its retransmission three seconds later; the timeout checker scans, pops and
  tests the record between the capture thread's lookup of the record and its
  \<open>add_packet\<close>.
\<close>

definition fixture_race_schedule :: "action list" where
  "fixture_race_schedule =
     [Deliver (fixture_client ''S'' 0), Main, Main, Main, Main, Main,
      Deliver (fixture_client ''S'' 3), Main, Main,
      Sweeper, Sweeper, Sweeper,
      Main, Main, Main, Main,
      Sweeper]"

section \<open>Facts about the fixtures\<close>

lemma fixture_zero_vector:
  "feature_vector (fixture_binary_model p) (fixture_zero_features 443) = [0, 0, 0, 443, 0, 0]"
  by (simp add: feature_vector_def fixture_binary_model_def feature_value_def feature_map_def
      fixture_zero_features_def FEATURE_NAMES_def dict_get_def)

lemma fixture_scan_vector:
  "feature_vector (fixture_binary_model p) fixture_scan_features = [1000, 1, 1, 5555, 0, 0]"
  by (simp add: feature_vector_def fixture_binary_model_def feature_value_def feature_map_def
      fixture_scan_features_def dict_get_def)

lemma fixture_scan_rule:
  "rule_based_classification fixture_scan_features = Inr (''PortScan'', 0.85)"
  by (simp add: rule_based_classification_def fixture_scan_features_def
      dict_get_def py_gt_def py_ge_def py_le_def py_in_def Let_def)

lemma fixture_scan_ml:
  "classify_attack_type_ml (Some (fixture_multiclass_model (Inr (t, c, top3)))) fixture_scan_features
     = Tuple3 t c top3"
  by (simp add: classify_attack_type_ml_def fixture_multiclass_model_def FEATURE_NAMES_def)

lemma fixture_predict:
  "binary_predict_proba (fixture_binary_model p)
     (feature_vector (fixture_binary_model p) fixture_scan_features) = Inr p"
  by (simp add: fixture_scan_vector) (simp add: fixture_binary_model_def)

section \<open>The binary gate\<close>

lemma try_alternative_names_none:
  "\<forall>(old_name, new_name) \<in> set fm. new_name = n \<longrightarrow> fs old_name = None \<Longrightarrow>
   try_alternative_names fs n fm v = v"
  by (induction fm) (auto split: option.splits)

lemma try_alternative_names_cases:
  "try_alternative_names fs n fm v = v \<or> (\<exists>k. fs k = Some (try_alternative_names fs n fm v))"
  by (induction fm) (auto split: option.splits)

lemma try_alternative_names_direct:
  "n \<notin> snd ` set fm \<Longrightarrow> try_alternative_names fs n fm v = v"
  by (induction fm) (auto split: option.splits)

lemma try_alternative_names_renamed:
  "distinct (map snd fm) \<Longrightarrow> (old_name, n) \<in> set fm \<Longrightarrow> fs old_name = Some v \<Longrightarrow>
   try_alternative_names fs n fm d = v"
proof (induction fm)
  case Nil
  then show ?case by simp
next
  case (Cons p fm)
  obtain o' n' where p: "p = (o', n')" by (cases p)
  show ?case
  proof (cases "n' = n")
    case True
    with Cons.prems p have "n \<notin> snd ` set fm" by auto
    with Cons.prems p True have "o' = old_name" by force
    with Cons.prems p True show ?thesis by simp
  next
    case False
    with Cons p show ?thesis by auto
  qed
qed

lemma feature_map_distinct: "distinct (map snd feature_map)"
  by (simp add: feature_map_def)

lemma nan_to_num_cases: "nan_to_num v = 0 \<or> v = Fin (nan_to_num v)"
  by (cases v) auto

lemma feature_value_component:
  "nan_to_num (feature_value fs n) = 0 \<or> (\<exists>k. fs k = Some (Fin (nan_to_num (feature_value fs n))))"
proof (cases "nan_to_num (feature_value fs n) = 0")
  case True
  then show ?thesis by simp
next
  case False
  with nan_to_num_cases[of "feature_value fs n"]
  have fin: "feature_value fs n = Fin (nan_to_num (feature_value fs n))" by simp
  from try_alternative_names_cases[of fs n feature_map "dict_get fs n (Fin 0)"]
  have "feature_value fs n = dict_get fs n (Fin 0) \<or> (\<exists>k. fs k = Some (feature_value fs n))"
    by (simp add: feature_value_def)
  then show ?thesis
  proof
    assume a: "feature_value fs n = dict_get fs n (Fin 0)"
    show ?thesis
    proof (cases "fs n")
      case None
      with a have "feature_value fs n = Fin 0" by (simp add: dict_get_def)
      then show ?thesis by simp
    next
      case (Some v)
      with a have "fs n = Some (feature_value fs n)" by (simp add: dict_get_def)
      with fin show ?thesis by metis
    qed
  next
    assume "\<exists>k. fs k = Some (feature_value fs n)"
    with fin show ?thesis by metis
  qed
qed

lemma feature_value_renamed:
  "(old_name, n) \<in> set feature_map \<Longrightarrow> fs old_name = Some v \<Longrightarrow> feature_value fs n = v"
  unfolding feature_value_def
  by (rule try_alternative_names_renamed[OF feature_map_distinct])

lemma feature_value_direct:
  "n \<notin> snd ` set feature_map \<Longrightarrow> feature_value fs n = dict_get fs n (Fin 0)"
  unfolding feature_value_def
  by (rule try_alternative_names_direct)

text \<open>
  Claim C4. With the binary classifier loaded and answering \<open>(attack_prob, benign_prob)\<close>
  on the remapped vector, the gate's decision is \<open>attack_prob > 0.25 \<or> benign_prob < 0.80\<close>.
  The vector has one entry per model feature; every entry is 0 or a finite value of the
  request (a non-finite value never passes); an entry whose name and alternative names
  are all absent from the request is 0; an entry is otherwise the sanitized request value
  under its alternative name, or under its own name when it has no alternative.
\<close>

theorem binary_gate_decision:
  assumes "binary_predict_proba bm (feature_vector bm fs) = Inr (attack_prob, benign_prob)"
  shows "binary_gate (Some bm) fs =
           Inr (attack_prob > 0.25 \<or> benign_prob < 0.80, max attack_prob benign_prob, attack_prob)
     \<and> length (feature_vector bm fs) = length (BINARY_FEATURE_NAMES bm)
     \<and> (\<forall>i < length (BINARY_FEATURE_NAMES bm).
          let n = BINARY_FEATURE_NAMES bm ! i; x = feature_vector bm fs ! i in
            (x = 0 \<or> (\<exists>k. fs k = Some (Fin x)))
          \<and> (fs n = None \<and> (\<forall>(old_name, new_name) \<in> set feature_map. new_name = n \<longrightarrow> fs old_name = None)
               \<longrightarrow> x = 0)
          \<and> (\<forall>old_name v. (old_name, n) \<in> set feature_map \<and> fs old_name = Some v \<longrightarrow> x = nan_to_num v)
          \<and> (\<forall>v. n \<notin> snd ` set feature_map \<and> fs n = Some v \<longrightarrow> x = nan_to_num v))"
proof (intro conjI allI impI)
  show "binary_gate (Some bm) fs =
           Inr (attack_prob > 0.25 \<or> benign_prob < 0.80, max attack_prob benign_prob, attack_prob)"
    using assms by (simp add: binary_gate_def ATTACK_THRESHOLD_def CONFIDENT_BENIGN_THRESHOLD_def)
  show "length (feature_vector bm fs) = length (BINARY_FEATURE_NAMES bm)"
    by (simp add: feature_vector_def)
  fix i assume i: "i < length (BINARY_FEATURE_NAMES bm)"
  have x: "feature_vector bm fs ! i = nan_to_num (feature_value fs (BINARY_FEATURE_NAMES bm ! i))"
    using i by (simp add: feature_vector_def)
  show "let n = BINARY_FEATURE_NAMES bm ! i; x = feature_vector bm fs ! i in
            (x = 0 \<or> (\<exists>k. fs k = Some (Fin x)))
          \<and> (fs n = None \<and> (\<forall>(old_name, new_name) \<in> set feature_map. new_name = n \<longrightarrow> fs old_name = None)
               \<longrightarrow> x = 0)
          \<and> (\<forall>old_name v. (old_name, n) \<in> set feature_map \<and> fs old_name = Some v \<longrightarrow> x = nan_to_num v)
          \<and> (\<forall>v. n \<notin> snd ` set feature_map \<and> fs n = Some v \<longrightarrow> x = nan_to_num v)"
    unfolding Let_def x
  proof (intro conjI allI impI)
    show "nan_to_num (feature_value fs (BINARY_FEATURE_NAMES bm ! i)) = 0 \<or>
      (\<exists>k. fs k = Some (Fin (nan_to_num (feature_value fs (BINARY_FEATURE_NAMES bm ! i)))))"
      by (rule feature_value_component)
  next
    assume "fs (BINARY_FEATURE_NAMES bm ! i) = None \<and>
      (\<forall>(old_name, new_name)\<in>set feature_map. new_name = BINARY_FEATURE_NAMES bm ! i \<longrightarrow> fs old_name = None)"
    then show "nan_to_num (feature_value fs (BINARY_FEATURE_NAMES bm ! i)) = 0"
      by (simp add: feature_value_def try_alternative_names_none dict_get_def)
  next
    fix old_name v
    assume "(old_name, BINARY_FEATURE_NAMES bm ! i) \<in> set feature_map \<and> fs old_name = Some v"
    then show "nan_to_num (feature_value fs (BINARY_FEATURE_NAMES bm ! i)) = nan_to_num v"
      using feature_value_renamed[of old_name "BINARY_FEATURE_NAMES bm ! i" fs v] by simp
  next
    fix v
    assume "BINARY_FEATURE_NAMES bm ! i \<notin> snd ` set feature_map \<and> fs (BINARY_FEATURE_NAMES bm ! i) = Some v"
    then show "nan_to_num (feature_value fs (BINARY_FEATURE_NAMES bm ! i)) = nan_to_num v"
      using feature_value_direct[of "BINARY_FEATURE_NAMES bm ! i" fs] by (simp add: dict_get_def)
  qed
qed

theorem binary_gate_decision_witness:
  "binary_gate (Some (fixture_binary_model (0.22, 0.80))) fixture_scan_features = Inr (False, 0.80, 0.22)
   \<and> feature_vector (fixture_binary_model (0.22, 0.80)) fixture_scan_features = [1000, 1, 1, 5555, 0, 0]"
  using binary_gate_decision[OF fixture_predict[of "(0.22, 0.80)"]]
  by (simp add: fixture_scan_vector)

section \<open>Short circuit and fusion\<close>

text \<open>
  Claim C5. When the gate did not flag the flow and \<open>attack_prob \<le> 0.20\<close>, the request
  is answered BENIGN with confidence \<open>max attack_prob benign_prob\<close> and no call to the
  rule engine or to the multi-class resolver is made, whatever the multi-class model is.
  The witness is the all-zero vector with destination port 443.
\<close>

theorem short_circuit_benign:
  assumes "BINARY_MODEL eng = Some bm"
    and "binary_predict_proba bm (feature_vector bm (features data)) = Inr (attack_prob, benign_prob)"
    and "\<not> (attack_prob > ATTACK_THRESHOLD \<or> benign_prob < CONFIDENT_BENIGN_THRESHOLD)"
    and "attack_prob \<le> 0.20"
  shows "\<exists>ev. predict_flow eng now data history =
                 (Inr ev, deque_append EVENT_HISTORY_MAXLEN history ev, [])
              \<and> label ev = ''BENIGN'' \<and> attack_type ev = ''BENIGN'' \<and> \<not> is_malicious ev
              \<and> confidence ev = max attack_prob benign_prob"
  using assms
  by (simp add: predict_flow_def binary_gate_def attack_type_classification_def Let_def)

theorem short_circuit_benign_witness:
  "fst (predict_flow \<lparr>BINARY_MODEL = Some (fixture_binary_model (0.1, 0.9)), MULTICLASS_MODEL = None\<rparr>
          ''2024-01-01T00:00:00'' (fixture_data (fixture_zero_features 443)) [])
     = Inr \<lparr>timestamp = ''2024-01-01T00:00:00'', ev_src_ip = ''10.0.0.5'', ev_dst_ip = ''10.0.0.9'',
            ev_dst_port = Fin 443, label = ''BENIGN'', attack_type = ''BENIGN'', confidence = 0.9,
            is_malicious = False, detection_method = ''ml'', ml_attack_prob = 0.1,
            ml_attack_type = ''BENIGN'', model = ''Hybrid-v3''\<rparr>
   \<and> snd (snd (predict_flow \<lparr>BINARY_MODEL = Some (fixture_binary_model (0.1, 0.9)), MULTICLASS_MODEL = None\<rparr>
          ''2024-01-01T00:00:00'' (fixture_data (fixture_zero_features 443)) [])) = []"
proof -
  let ?eng = "\<lparr>BINARY_MODEL = Some (fixture_binary_model (0.1, 0.9)), MULTICLASS_MODEL = None\<rparr>"
  let ?data = "fixture_data (fixture_zero_features 443)"
  have h1: "BINARY_MODEL ?eng = Some (fixture_binary_model (0.1, 0.9))" by simp
  have h2: "binary_predict_proba (fixture_binary_model (0.1, 0.9))
              (feature_vector (fixture_binary_model (0.1, 0.9)) (features ?data)) = Inr (0.1, 0.9)"
    by (simp add: fixture_data_def fixture_zero_vector) (simp add: fixture_binary_model_def)
  have h3: "\<not> ((0.1::real) > ATTACK_THRESHOLD \<or> (0.9::real) < CONFIDENT_BENIGN_THRESHOLD)"
    by (simp add: ATTACK_THRESHOLD_def CONFIDENT_BENIGN_THRESHOLD_def)
  have h4: "(0.1::real) \<le> 0.20" by simp
  from short_circuit_benign[OF h1 h2 h3 h4, of "''2024-01-01T00:00:00''" "[]"]
  obtain ev where ev: "predict_flow ?eng ''2024-01-01T00:00:00'' ?data [] =
                 (Inr ev, deque_append EVENT_HISTORY_MAXLEN [] ev, [])" by blast
  have "ev = \<lparr>timestamp = ''2024-01-01T00:00:00'', ev_src_ip = ''10.0.0.5'', ev_dst_ip = ''10.0.0.9'',
            ev_dst_port = Fin 443, label = ''BENIGN'', attack_type = ''BENIGN'', confidence = 0.9,
            is_malicious = False, detection_method = ''ml'', ml_attack_prob = 0.1,
            ml_attack_type = ''BENIGN'', model = ''Hybrid-v3''\<rparr>"
    using ev h2
    by (simp add: predict_flow_def binary_gate_def attack_type_classification_def Let_def
        fixture_data_def ATTACK_THRESHOLD_def CONFIDENT_BENIGN_THRESHOLD_def dict_get_def
        fixture_zero_features_def)
  with ev show ?thesis by simp
qed

lemma predict_flow_fusion:
  assumes "BINARY_MODEL eng = Some bm"
    and "binary_predict_proba bm (feature_vector bm (features data)) = Inr (attack_prob, benign_prob)"
    and "attack_prob > 0.25 \<or> benign_prob < 0.80 \<or> attack_prob > 0.20"
    and "rule_based_classification (features data) = Inr (rule_type, rule_conf)"
    and "classify_attack_type_ml (MULTICLASS_MODEL eng) (features data) = Tuple3 ml_type ml_conf top3"
  shows "predict_flow eng now data history =
     (let (a, c, m) = fuse rule_type rule_conf ml_type ml_conf;
          ev = \<lparr>timestamp = now,
                ev_src_ip = (case meta_src_ip data of Some s \<Rightarrow> s | None \<Rightarrow> ''unknown''),
                ev_dst_ip = (case meta_dst_ip data of Some s \<Rightarrow> s | None \<Rightarrow> ''unknown''),
                ev_dst_port = dict_get (features data) ''Destination Port'' (Fin 0),
                label = ''ATTACK'', attack_type = a, confidence = c, is_malicious = True,
                detection_method = m, ml_attack_prob = attack_prob, ml_attack_type = ml_type,
                model = ''Hybrid-v3''\<rparr>
      in (Inr ev, deque_append EVENT_HISTORY_MAXLEN history ev, [RuleEngine, MulticlassResolver]))"
proof -
  obtain a c m where f: "fuse rule_type rule_conf ml_type ml_conf = (a, c, m)"
    by (cases "fuse rule_type rule_conf ml_type ml_conf") auto
  have c: "(attack_prob > ATTACK_THRESHOLD \<or> benign_prob < CONFIDENT_BENIGN_THRESHOLD) \<or> attack_prob > 0.20"
    using assms(3) by (auto simp: ATTACK_THRESHOLD_def CONFIDENT_BENIGN_THRESHOLD_def)
  show ?thesis
    using assms(1,2,4,5) f c
    by (simp add: predict_flow_def binary_gate_def attack_type_classification_def Let_def
          del: disj_not1 )
qed

text \<open>
  Claim C2. Once the fusion step is reached, a rule result with confidence at least 0.70
  and a type other than "Unknown Attack" wins with method "rules"; otherwise a multi-class
  result other than "BENIGN" with confidence above 0.30 wins with method "ml-multiclass";
  otherwise the rule result is used with method "rules". On the rule result
  ("PortScan", 0.75) and the multi-class result ("DDoS", 0.92) the choice is "PortScan"
  by "rules".
\<close>

theorem fusion_precedence:
  assumes "BINARY_MODEL eng = Some bm"
    and "binary_predict_proba bm (feature_vector bm (features data)) = Inr (attack_prob, benign_prob)"
    and "attack_prob > 0.25 \<or> benign_prob < 0.80 \<or> attack_prob > 0.20"
    and "rule_based_classification (features data) = Inr (rule_type, rule_conf)"
    and "classify_attack_type_ml (MULTICLASS_MODEL eng) (features data) = Tuple3 ml_type ml_conf top3"
  shows "(\<exists>ev history' calls. predict_flow eng now data history = (Inr ev, history', calls)
          \<and> (attack_type ev, confidence ev, detection_method ev) =
              (if rule_conf \<ge> 0.70 \<and> rule_type \<noteq> ''Unknown Attack''
                 then (rule_type, rule_conf, ''rules'')
               else if ml_type \<noteq> ''BENIGN'' \<and> ml_conf > 0.30
                 then (ml_type, ml_conf, ''ml-multiclass'')
               else (rule_type, rule_conf, ''rules'')))
       \<and> fuse ''PortScan'' 0.75 ''DDoS'' 0.92 = (''PortScan'', 0.75, ''rules'')"
proof
  obtain a c m where f: "fuse rule_type rule_conf ml_type ml_conf = (a, c, m)"
    by (cases "fuse rule_type rule_conf ml_type ml_conf") auto
  have "(a, c, m) = (if rule_conf \<ge> 0.70 \<and> rule_type \<noteq> ''Unknown Attack''
                 then (rule_type, rule_conf, ''rules'')
               else if ml_type \<noteq> ''BENIGN'' \<and> ml_conf > 0.30
                 then (ml_type, ml_conf, ''ml-multiclass'')
               else (rule_type, rule_conf, ''rules''))"
    using f unfolding fuse_def by simp
  then show "\<exists>ev history' calls. predict_flow eng now data history = (Inr ev, history', calls)
          \<and> (attack_type ev, confidence ev, detection_method ev) =
              (if rule_conf \<ge> 0.70 \<and> rule_type \<noteq> ''Unknown Attack''
                 then (rule_type, rule_conf, ''rules'')
               else if ml_type \<noteq> ''BENIGN'' \<and> ml_conf > 0.30
                 then (ml_type, ml_conf, ''ml-multiclass'')
               else (rule_type, rule_conf, ''rules''))"
    unfolding predict_flow_fusion[OF assms] Let_def f by simp
  show "fuse ''PortScan'' 0.75 ''DDoS'' 0.92 = (''PortScan'', 0.75, ''rules'')"
    by (simp add: fuse_def)
qed

theorem fusion_precedence_witness:
  "(\<exists>ev history' calls.
       predict_flow (fixture_engine (0.9, 0.1) (Some (fixture_multiclass_model (Inr (''DDoS'', 0.92, [])))))
         ''2024-01-01T00:00:00'' (fixture_data fixture_scan_features) [] = (Inr ev, history', calls)
       \<and> (attack_type ev, confidence ev, detection_method ev) = (''PortScan'', 0.85, ''rules''))
   \<and> fuse ''PortScan'' 0.75 ''DDoS'' 0.92 = (''PortScan'', 0.75, ''rules'')"
proof -
  let ?mm = "Some (fixture_multiclass_model (Inr (''DDoS'', 0.92, [])))"
  let ?eng = "fixture_engine (0.9, 0.1) ?mm"
  let ?data = "fixture_data fixture_scan_features"
  have h1: "BINARY_MODEL ?eng = Some (fixture_binary_model (0.9, 0.1))"
    by (simp add: fixture_engine_def)
  have h2: "binary_predict_proba (fixture_binary_model (0.9, 0.1))
              (feature_vector (fixture_binary_model (0.9, 0.1)) (features ?data)) = Inr (0.9, 0.1)"
    by (simp add: fixture_data_def fixture_predict)
  have h3: "(0.9::real) > 0.25 \<or> (0.1::real) < 0.80 \<or> (0.9::real) > 0.20" by simp
  have h4: "rule_based_classification (features ?data) = Inr (''PortScan'', 0.85)"
    by (simp add: fixture_data_def fixture_scan_rule)
  have h5: "classify_attack_type_ml (MULTICLASS_MODEL ?eng) (features ?data) = Tuple3 ''DDoS'' 0.92 []"
    by (simp add: fixture_data_def fixture_engine_def fixture_scan_ml)
  show ?thesis
    using fusion_precedence[OF h1 h2 h3 h4 h5, of "''2024-01-01T00:00:00''" "[]"]
    by simp
qed

text \<open>
  Claim C10. Whenever \<open>predict_flow\<close> answers, the label is ATTACK exactly when
  \<open>attack_prob > 0.20 \<or> benign_prob < 0.80\<close>. In particular a flow the gate judged
  benign (\<open>attack_prob \<le> 0.25\<close> and \<open>benign_prob \<ge> 0.80\<close>) with
  \<open>attack_prob > 0.20\<close> is reported malicious, and its confidence is that of the chosen
  attack-type source (rule engine or multi-class resolver), not the binary one.
\<close>

theorem final_label_iff:
  assumes "BINARY_MODEL eng = Some bm"
    and "binary_predict_proba bm (feature_vector bm (features data)) = Inr (attack_prob, benign_prob)"
    and "predict_flow eng now data history = (Inr ev, history', calls)"
  shows "(label ev = ''ATTACK'' \<longleftrightarrow> attack_prob > 0.20 \<or> benign_prob < 0.80)
       \<and> (label ev = ''BENIGN'' \<longleftrightarrow> \<not> (attack_prob > 0.20 \<or> benign_prob < 0.80))
       \<and> (attack_prob > 0.20 \<and> attack_prob \<le> 0.25 \<and> benign_prob \<ge> 0.80 \<longrightarrow>
            is_malicious ev \<and>
            (\<exists>rule_type rule_conf ml_type ml_conf top3.
                rule_based_classification (features data) = Inr (rule_type, rule_conf)
              \<and> classify_attack_type_ml (MULTICLASS_MODEL eng) (features data) = Tuple3 ml_type ml_conf top3
              \<and> (attack_type ev, confidence ev, detection_method ev) = fuse rule_type rule_conf ml_type ml_conf
              \<and> confidence ev \<in> {rule_conf, ml_conf}))"
proof (cases "attack_prob > 0.20 \<or> benign_prob < 0.80")
  case False
  then have "\<not> (attack_prob > ATTACK_THRESHOLD \<or> benign_prob < CONFIDENT_BENIGN_THRESHOLD)"
    and "attack_prob \<le> 0.20"
    by (auto simp: ATTACK_THRESHOLD_def CONFIDENT_BENIGN_THRESHOLD_def)
  then have "label ev = ''BENIGN''"
    using assms
    by (auto simp: predict_flow_def binary_gate_def attack_type_classification_def Let_def)
  with False show ?thesis by auto
next
  case True
  then have c: "attack_prob > 0.25 \<or> benign_prob < 0.80 \<or> attack_prob > 0.20" by auto
  have g: "binary_gate (BINARY_MODEL eng) (features data) =
      Inr (attack_prob > ATTACK_THRESHOLD \<or> benign_prob < CONFIDENT_BENIGN_THRESHOLD,
           max attack_prob benign_prob, attack_prob)"
    using assms(1,2) by (simp add: binary_gate_def)
  have enter: "(attack_prob > ATTACK_THRESHOLD \<or> benign_prob < CONFIDENT_BENIGN_THRESHOLD) \<or> attack_prob > 0.20"
    using c by (auto simp: ATTACK_THRESHOLD_def CONFIDENT_BENIGN_THRESHOLD_def)
  obtain rule_type rule_conf where r: "rule_based_classification (features data) = Inr (rule_type, rule_conf)"
    using assms(3) g enter
    by (cases "rule_based_classification (features data)")
       (auto simp: predict_flow_def attack_type_classification_def Let_def simp del: disj_not1)
  obtain ml_type ml_conf top3 where
    m: "classify_attack_type_ml (MULTICLASS_MODEL eng) (features data) = Tuple3 ml_type ml_conf top3"
    using assms(3) g enter r
    by (cases "classify_attack_type_ml (MULTICLASS_MODEL eng) (features data)")
       (auto simp: predict_flow_def attack_type_classification_def Let_def simp del: disj_not1)
  obtain a c' d where f: "fuse rule_type rule_conf ml_type ml_conf = (a, c', d)"
    by (cases "fuse rule_type rule_conf ml_type ml_conf") auto
  have ev: "label ev = ''ATTACK'' \<and> is_malicious ev \<and> attack_type ev = a \<and> confidence ev = c'
      \<and> detection_method ev = d"
    using assms(3) unfolding predict_flow_fusion[OF assms(1,2) c r m] Let_def f by auto
  have "c' \<in> {rule_conf, ml_conf}"
    using f by (auto simp: fuse_def split: if_splits)
  with ev r m f True show ?thesis by auto
qed

theorem final_label_iff_witness:
  "(case fst (predict_flow (fixture_engine (0.22, 0.80) (Some (fixture_multiclass_model (Inr (''BENIGN'', 0.6, [])))))
               ''2024-01-01T00:00:00'' (fixture_data fixture_scan_features) []) of
      Inl e \<Rightarrow> False
    | Inr ev \<Rightarrow> label ev = ''ATTACK'' \<and> is_malicious ev \<and> attack_type ev = ''PortScan''
                \<and> confidence ev = 0.85 \<and> detection_method ev = ''rules'')"
proof -
  let ?mm = "Some (fixture_multiclass_model (Inr (''BENIGN'', 0.6, [])))"
  let ?eng = "fixture_engine (0.22, 0.80) ?mm"
  let ?data = "fixture_data fixture_scan_features"
  let ?now = "''2024-01-01T00:00:00''"
  have h1: "BINARY_MODEL ?eng = Some (fixture_binary_model (0.22, 0.80))"
    by (simp add: fixture_engine_def)
  have h2: "binary_predict_proba (fixture_binary_model (0.22, 0.80))
              (feature_vector (fixture_binary_model (0.22, 0.80)) (features ?data)) = Inr (0.22, 0.80)"
    by (simp add: fixture_data_def fixture_predict)
  have h3: "(0.22::real) > 0.25 \<or> (0.80::real) < 0.80 \<or> (0.22::real) > 0.20" by simp
  have h4: "rule_based_classification (features ?data) = Inr (''PortScan'', 0.85)"
    by (simp add: fixture_data_def fixture_scan_rule)
  have h5: "classify_attack_type_ml (MULTICLASS_MODEL ?eng) (features ?data) = Tuple3 ''BENIGN'' 0.6 []"
    by (simp add: fixture_data_def fixture_engine_def fixture_scan_ml)
  obtain ev history' calls where p: "predict_flow ?eng ?now ?data [] = (Inr ev, history', calls)"
    unfolding predict_flow_fusion[OF h1 h2 h3 h4 h5] Let_def by (simp add: fuse_def)
  from final_label_iff[OF h1 h2 p] have A: "label ev = ''ATTACK''"
    by simp
  from final_label_iff[OF h1 h2 p]
  have B: "is_malicious ev \<and>
            (\<exists>rule_type rule_conf ml_type ml_conf top3.
                rule_based_classification (features ?data) = Inr (rule_type, rule_conf)
              \<and> classify_attack_type_ml (MULTICLASS_MODEL ?eng) (features ?data) = Tuple3 ml_type ml_conf top3
              \<and> (attack_type ev, confidence ev, detection_method ev) = fuse rule_type rule_conf ml_type ml_conf
              \<and> confidence ev \<in> {rule_conf, ml_conf})"
    by simp
  then obtain rule_type rule_conf ml_type ml_conf top3 where
      r: "rule_based_classification (features ?data) = Inr (rule_type, rule_conf)"
    and m: "classify_attack_type_ml (MULTICLASS_MODEL ?eng) (features ?data) = Tuple3 ml_type ml_conf top3"
    and f: "(attack_type ev, confidence ev, detection_method ev) = fuse rule_type rule_conf ml_type ml_conf"
    by blast
  have "Inr (rule_type, rule_conf) = (Inr (''PortScan'', 0.85) :: pyexc + string \<times> real)"
    by (rule trans[OF sym[OF r] h4])
  then have r': "rule_type = ''PortScan'' \<and> rule_conf = 0.85"
    by (simp only: sum.inject prod.inject)
  have "Tuple3 ml_type ml_conf top3 = Tuple3 ''BENIGN'' 0.6 []"
    by (rule trans[OF sym[OF m] h5])
  then have m': "ml_type = ''BENIGN'' \<and> ml_conf = 0.6"
    by (simp only: ml_result.inject)
  have "(attack_type ev, confidence ev, detection_method ev) = fuse ''PortScan'' 0.85 ''BENIGN'' 0.6"
    using f r' m' by (simp only:)
  with A B have "label ev = ''ATTACK'' \<and> is_malicious ev
      \<and> (attack_type ev, confidence ev, detection_method ev) = fuse ''PortScan'' 0.85 ''BENIGN'' 0.6"
    by simp
  then have "label ev = ''ATTACK'' \<and> is_malicious ev \<and> attack_type ev = ''PortScan''
                \<and> confidence ev = 0.85 \<and> detection_method ev = ''rules''"
    by (simp add: fuse_def)
  with p show ?thesis by simp
qed

section \<open>Failure of the multi-class classifier\<close>

lemma py_truediv_nonzero:
  "py_gt d (Fin 0) \<Longrightarrow> \<exists>r. py_truediv a d = Inr r"
  by (cases d; cases a) (auto simp: py_gt_def)

lemma py_truediv_pos:
  "py_gt d (Fin 0) \<Longrightarrow> \<exists>r. py_truediv d (Fin 1000000) = Inr r \<and> py_gt r (Fin 0)"
  by (cases d) (auto simp: py_gt_def signed_inf_def)

lemma rule_based_classification_total:
  "\<exists>r. rule_based_classification fs = Inr r"
proof (cases "py_gt (dict_get fs ''Flow Duration'' (Fin 1)) (Fin 0)")
  case True
  from py_truediv_pos[OF True] obtain secs where
    s: "py_truediv (dict_get fs ''Flow Duration'' (Fin 1)) (Fin 1000000) = Inr secs" "py_gt secs (Fin 0)"
    by blast
  from py_truediv_nonzero[OF s(2)] obtain pps where
    "py_truediv (py_add (dict_get fs ''Total Fwd Packets'' (Fin 0))
         (dict_get fs ''Total Backward Packets'' (Fin 0))) secs = Inr pps"
    by blast
  with True s show ?thesis
    unfolding rule_based_classification_def Let_def by simp
next
  case False
  then show ?thesis
    unfolding rule_based_classification_def Let_def by simp
qed

lemma multiclass_unavailable_general:
  assumes "BINARY_MODEL eng = Some bm" and "MULTICLASS_MODEL eng = None"
    and "binary_predict_proba bm (feature_vector bm (features data)) = Inr (attack_prob, benign_prob)"
    and "attack_prob > 0.20 \<or> benign_prob < 0.80"
  shows "predict_flow eng now data history =
           (Inl (HTTPException 400 ValueError), history, [RuleEngine, MulticlassResolver])"
proof -
  obtain r where r: "rule_based_classification (features data) = Inr r"
    using rule_based_classification_total by blast
  have c: "(attack_prob > ATTACK_THRESHOLD \<or> benign_prob < CONFIDENT_BENIGN_THRESHOLD) \<or> attack_prob > 0.20"
    using assms(4) by (auto simp: ATTACK_THRESHOLD_def CONFIDENT_BENIGN_THRESHOLD_def)
  show ?thesis
    using assms(1,2,3) r c
    by (simp add: predict_flow_def binary_gate_def attack_type_classification_def
        classify_attack_type_ml_def Let_def split: prod.splits del: disj_not1)
qed

text \<open>
  Claim C9. With the multi-class model unavailable, \<open>classify_attack_type_ml\<close> returns a
  tuple of two, the three-name unpacking in \<open>predict_flow\<close> raises \<open>ValueError\<close>, and
  the request that reached the fusion step is answered with \<open>HTTPException(400)\<close>; no
  event is recorded.
\<close>

theorem multiclass_unavailable_raises:
  "classify_attack_type_ml None fixture_scan_features = Tuple2 ''Unknown'' 0.5
   \<and> predict_flow (fixture_engine (0.9, 0.1) None) ''2024-01-01T00:00:00''
        (fixture_data fixture_scan_features) []
      = (Inl (HTTPException 400 ValueError), [], [RuleEngine, MulticlassResolver])"
proof -
  have h1: "BINARY_MODEL (fixture_engine (0.9, 0.1) None) = Some (fixture_binary_model (0.9, 0.1))"
    and h2: "MULTICLASS_MODEL (fixture_engine (0.9, 0.1) None) = None"
    by (simp_all add: fixture_engine_def)
  have h3: "binary_predict_proba (fixture_binary_model (0.9, 0.1))
              (feature_vector (fixture_binary_model (0.9, 0.1))
                 (features (fixture_data fixture_scan_features))) = Inr (0.9, 0.1)"
    by (simp add: fixture_data_def fixture_predict)
  have h4: "(0.9::real) > 0.20 \<or> (0.1::real) < 0.80" by simp
  show ?thesis
    using multiclass_unavailable_general[OF h1 h2 h3 h4]
    by (simp add: classify_attack_type_ml_def)
qed

lemma classifier_exception_degrades:
  "multiclass_predict m (map (\<lambda>feat. nan_to_num (dict_get fs feat (Fin 0)))
                     (MULTICLASS_PREPROCESSOR_FEATURES m)) = Inl e \<Longrightarrow>
   classify_attack_type_ml (Some m) fs = Tuple3 ''Unknown'' 0.5 []"
  by (simp add: classify_attack_type_ml_def)

section \<open>The event history\<close>

lemma deque_append_drop:
  "0 < n \<Longrightarrow> deque_append n (drop (length p - n) p) x = drop (length (p @ [x]) - n) (p @ [x])"
proof (cases "length p \<ge> n")
  case True
  assume n: "0 < n"
  from True n have l: "length (drop (length p - n) p) = n" by simp
  from True n have "tl (drop (length p - n) p) = drop (Suc (length p - n)) p"
    by (simp add: drop_Suc tl_drop)
  moreover from True have "Suc (length p - n) = Suc (length p) - n" by simp
  ultimately show ?thesis
    using n l True by (simp add: deque_append_def)
next
  case False
  assume "0 < n"
  with False show ?thesis by (simp add: deque_append_def)
qed

lemma foldl_deque_append:
  "0 < n \<Longrightarrow> foldl (deque_append n) (drop (length p - n) p) evs = drop (length (p @ evs) - n) (p @ evs)"
proof (induction evs arbitrary: p)
  case Nil
  then show ?case by simp
next
  case (Cons x xs)
  from Cons.IH[OF Cons.prems, of "p @ [x]"] deque_append_drop[OF Cons.prems, of p x]
  show ?case by simp
qed

text \<open>
  Claim C8 (as amended). After any sequence of appended events, \<open>get_events\<close> returns
  the last 100 of them in insertion order, oldest first and most recent last.
\<close>

theorem get_events_oldest_first:
  "get_events (foldl (deque_append EVENT_HISTORY_MAXLEN) [] evs) = drop (length evs - 100) evs"
  using foldl_deque_append[of EVENT_HISTORY_MAXLEN "[]" evs]
  by (simp add: get_events_def EVENT_HISTORY_MAXLEN_def)

theorem get_events_oldest_first_witness:
  "get_events (foldl (deque_append EVENT_HISTORY_MAXLEN) [] fixture_history_2) = fixture_history_2"
  using get_events_oldest_first[of fixture_history_2]
  by (simp add: fixture_history_2_def fixture_history_1_def predict_flow_def binary_gate_def
      attack_type_classification_def fixture_no_models_def Let_def deque_append_def
      EVENT_HISTORY_MAXLEN_def)

text \<open>
  Claim C8 as stated fails: two requests a second apart leave the older event first in
  what \<open>get_events\<close> returns.
\<close>

theorem events_most_recent_first_counterexample:
  "map timestamp (get_events fixture_history_2) = [''2024-01-01T00:00:01'', ''2024-01-01T00:00:02'']
   \<and> map timestamp (get_events fixture_history_2) \<noteq> [''2024-01-01T00:00:02'', ''2024-01-01T00:00:01'']"
  by (simp add: fixture_history_2_def fixture_history_1_def predict_flow_def binary_gate_def
      attack_type_classification_def fixture_no_models_def Let_def deque_append_def
      EVENT_HISTORY_MAXLEN_def get_events_def)

section \<open>What \<open>add_packet\<close> leaves alone\<close>

lemma add_packet_tcp_segments:
  "active_times (add_packet_tcp f d fl w ofs) = active_times f"
  "idle_times (add_packet_tcp f d fl w ofs) = idle_times f"
  "current_active_start (add_packet_tcp f d fl w ofs) = current_active_start f"
  "last_pkt_time (add_packet_tcp f d fl w ofs) = last_pkt_time f"
  "last_seen (add_packet_tcp f d fl w ofs) = last_seen f"
  "start_time (add_packet_tcp f d fl w ofs) = start_time f"
  by (simp_all add: add_packet_tcp_def Let_def)

lemma add_packet_direction_segments:
  "active_times (add_packet_direction f d n t) = active_times f"
  "idle_times (add_packet_direction f d n t) = idle_times f"
  "current_active_start (add_packet_direction f d n t) = current_active_start f"
  "last_pkt_time (add_packet_direction f d n t) = last_pkt_time f"
  "last_seen (add_packet_direction f d n t) = last_seen f"
  "start_time (add_packet_direction f d n t) = start_time f"
  by (simp_all add: add_packet_direction_def Let_def split: option.splits)

lemma add_packet_iat_times:
  "last_seen (add_packet_iat f t) = last_seen f"
  "start_time (add_packet_iat f t) = start_time f"
  "last_pkt_time (add_packet_iat f t) = last_pkt_time f"
  by (simp_all add: add_packet_iat_def Let_def split: option.splits)

lemma add_packet_segments:
  "active_times (add_packet f p d t now) = active_times (add_packet_iat (f\<lparr>last_seen := now\<rparr>) t)"
  "idle_times (add_packet f p d t now) = idle_times (add_packet_iat (f\<lparr>last_seen := now\<rparr>) t)"
  "current_active_start (add_packet f p d t now) = current_active_start (add_packet_iat (f\<lparr>last_seen := now\<rparr>) t)"
  "last_pkt_time (add_packet f p d t now) = Some t"
  "last_seen (add_packet f p d t now) = now"
  "start_time (add_packet f p d t now) = start_time f"
  by (simp_all add: add_packet_def Let_def add_packet_tcp_segments add_packet_direction_segments
      add_packet_iat_times split: transport.splits)

section \<open>Active and idle segments\<close>












section \<open>Flow keys\<close>

lemma sort_pair: "sort [x, y] = (if x \<le> y then [x, y] else [y, x])"
  by simp

lemma sort_pair_sym: "sort [x, y] = sort [y, x]"
  unfolding sort_pair by auto

lemma get_flow_key_sym: "get_flow_key a pa b pb = get_flow_key b pb a pa"
  unfolding get_flow_key_def by (rule sort_pair_sym)

text \<open>
  Claim C3 (as amended). The flow key is the sorted pair of the two (address, port)
  endpoints, without the protocol: it is the same for both directions of a connection,
  and two packets with the same endpoints get the same key whatever their protocols.
\<close>

theorem flow_key_direction_independent:
  "get_flow_key a pa b pb = get_flow_key b pb a pa
   \<and> set (get_flow_key a pa b pb) = {(a, pa), (b, pb)}
   \<and> sorted (get_flow_key a pa b pb)
   \<and> (packet_endpoints p1 = Some (a, b, pa, pb, proto1)
        \<and> (packet_endpoints p2 = Some (b, a, pb, pa, proto2) \<or> packet_endpoints p2 = Some (a, b, pa, pb, proto2))
        \<longrightarrow> packet_flow_key p1 = Some (get_flow_key a pa b pb) \<and> packet_flow_key p2 = packet_flow_key p1)"
proof (intro conjI impI)
  show "get_flow_key a pa b pb = get_flow_key b pb a pa" by (rule get_flow_key_sym)
  show "set (get_flow_key a pa b pb) = {(a, pa), (b, pb)}"
    unfolding get_flow_key_def set_sort by simp
  show "sorted (get_flow_key a pa b pb)"
    unfolding get_flow_key_def by (rule sorted_sort)
next
  assume h: "packet_endpoints p1 = Some (a, b, pa, pb, proto1)
        \<and> (packet_endpoints p2 = Some (b, a, pb, pa, proto2) \<or> packet_endpoints p2 = Some (a, b, pa, pb, proto2))"
  then show "packet_flow_key p1 = Some (get_flow_key a pa b pb)"
    by (simp add: packet_flow_key_def)
  from h show "packet_flow_key p2 = packet_flow_key p1"
    using get_flow_key_sym[of a pa b pb] by (auto simp: packet_flow_key_def)
qed

theorem flow_key_direction_independent_witness:
  "packet_flow_key (fixture_tcp_packet ''10.0.0.9'' 80 ''10.0.0.5'' 5555 ''SA'' 0.1)
     = packet_flow_key (fixture_tcp_packet ''10.0.0.5'' 5555 ''10.0.0.9'' 80 ''S'' 0)
   \<and> packet_flow_key (fixture_tcp_packet ''10.0.0.5'' 5555 ''10.0.0.9'' 80 ''S'' 0)
     = Some [(''10.0.0.5'', 5555), (''10.0.0.9'', 80)]"
proof -
  let ?p1 = "fixture_tcp_packet ''10.0.0.5'' 5555 ''10.0.0.9'' 80 ''S'' 0"
  let ?p2 = "fixture_tcp_packet ''10.0.0.9'' 80 ''10.0.0.5'' 5555 ''SA'' 0.1"
  have h: "packet_endpoints ?p1 = Some (''10.0.0.5'', ''10.0.0.9'', 5555, 80, ''TCP'')
        \<and> (packet_endpoints ?p2 = Some (''10.0.0.9'', ''10.0.0.5'', 80, 5555, ''TCP'')
             \<or> packet_endpoints ?p2 = Some (''10.0.0.5'', ''10.0.0.9'', 5555, 80, ''TCP''))"
    by (simp add: packet_endpoints_def fixture_tcp_packet_def)
  have k: "get_flow_key ''10.0.0.5'' 5555 ''10.0.0.9'' 80 = [(''10.0.0.5'', 5555), (''10.0.0.9'', 80)]"
    by (simp add: get_flow_key_def)
  from flow_key_direction_independent[of "''10.0.0.5''" 5555 "''10.0.0.9''" 80 ?p1 "''TCP''" ?p2 "''TCP''"] h
  have "packet_flow_key ?p1 = Some (get_flow_key ''10.0.0.5'' 5555 ''10.0.0.9'' 80)
        \<and> packet_flow_key ?p2 = packet_flow_key ?p1"
    by blast
  with k show ?thesis by simp
qed

text \<open>
  Claim C3 as stated fails: a TCP packet and a UDP packet between the same endpoints
  resolve to the same key.
\<close>

theorem flow_key_protocol_counterexample:
  "packet_endpoints (fixture_tcp_packet ''10.0.0.5'' 5555 ''10.0.0.9'' 53 ''S'' 0)
     = Some (''10.0.0.5'', ''10.0.0.9'', 5555, 53, ''TCP'')
   \<and> packet_endpoints (fixture_udp_packet 0) = Some (''10.0.0.5'', ''10.0.0.9'', 5555, 53, ''UDP'')
   \<and> packet_flow_key (fixture_tcp_packet ''10.0.0.5'' 5555 ''10.0.0.9'' 53 ''S'' 0)
       = packet_flow_key (fixture_udp_packet 0)"
  by (simp add: packet_endpoints_def packet_flow_key_def fixture_tcp_packet_def fixture_udp_packet_def)

section \<open>Feature derivation\<close>






lemma add_packets_clock:
  "start_time (add_packets f pkts) = start_time f
   \<and> last_seen (add_packets f pkts) = (if pkts = [] then last_seen f else snd (snd (last pkts)))"
proof (induction pkts arbitrary: f)
  case Nil
  then show ?case by simp
next
  case (Cons x pkts)
  obtain p d now where x: "x = (p, d, now)" by (cases x)
  from Cons.IH[of "add_packet f p d (pkt_time p) now"] x
  show ?case by (simp add: add_packet_segments)
qed






section \<open>The flow table under interleaving\<close>


lemma dict_set_map_fst:
  "map fst (dict_set d k v) = (if k \<in> set (map fst d) then map fst d else map fst d @ [k])"
proof (induction d)
  case Nil
  then show ?case by simp
next
  case (Cons a d)
  obtain k' v' where a: "a = (k', v')" by (cases a)
  show ?case
  proof (cases "k' = k")
    case True
    with a show ?thesis by simp
  next
    case False
    with a Cons show ?thesis by (cases "k \<in> set (map fst d)") simp_all
  qed
qed

lemma dict_set_distinct_keys:
  "distinct (map fst d) \<Longrightarrow> distinct (map fst (dict_set d k v))"
  by (simp add: dict_set_map_fst)

lemma dict_set_subset:
  "set (dict_set d k v) \<subseteq> insert (k, v) (set d)"
  by (induction d) (auto split: if_splits)

lemma dict_set_values:
  "set (map snd (dict_set d k v)) \<subseteq> insert v (set (map snd d))"
  using dict_set_subset[of d k v] by force

lemma dict_set_distinct_values:
  "distinct (map snd d) \<Longrightarrow> v \<notin> set (map snd d) \<Longrightarrow> distinct (map snd (dict_set d k v))"
proof (induction d)
  case Nil
  then show ?case by simp
next
  case (Cons a d)
  obtain k' v' where a: "a = (k', v')" by (cases a)
  show ?case
  proof (cases "k' = k")
    case True
    with Cons.prems a show ?thesis by simp
  next
    case False
    from Cons.prems a have v': "v' \<noteq> v" "v' \<notin> set (map snd d)" by auto
    with dict_set_values[of d k v] have "v' \<notin> set (map snd (dict_set d k v))" by blast
    moreover from Cons have "distinct (map snd (dict_set d k v))" by simp
    ultimately show ?thesis using a False by simp
  qed
qed

lemma dict_pop_table:
  assumes "dict_pop d k = (popped, table)"
  shows "set (map snd table) \<subseteq> set (map snd d)"
    and "distinct (map snd d) \<Longrightarrow> distinct (map snd table)"
    and "distinct (map fst d) \<Longrightarrow> distinct (map fst table)"
  using assms by (auto simp: dict_pop_def distinct_map_filter)

lemma dict_pop_popped:
  assumes "dict_pop d k = (Some r, table)" and "distinct (map snd d)"
  shows "r \<in> set (map snd d)" and "r \<notin> set (map snd table)"
proof -
  from assms(1) have m: "map_of d k = Some r" and t: "table = filter (\<lambda>(k', v). k' \<noteq> k) d"
    by (auto simp: dict_pop_def)
  from m have kr: "(k, r) \<in> set d" by (rule map_of_SomeD)
  then show "r \<in> set (map snd d)" by force
  show "r \<notin> set (map snd table)"
  proof
    assume "r \<in> set (map snd table)"
    then obtain k' where k': "(k', r) \<in> set d" "k' \<noteq> k" using t by auto
    from assms(2) have "inj_on snd (set d)" by (simp add: distinct_map)
    from inj_onD[OF this _ kr k'(1)] have "(k, r) = (k', r)" by simp
    with k'(2) show False by simp
  qed
qed


lemma send_guard_fields:
  "heap (send_guard path key popped s) = heap s"
  "active_flows (send_guard path key popped s) = active_flows s"
  "main_pc (send_guard path key popped s) = main_pc s"
  "sweeper_pc (send_guard path key popped s) = sweeper_pc s"
  by (simp_all add: send_guard_def split: option.splits)

lemma send_guard_emitted:
  "\<exists>e. emitted_refs (send_guard path key popped s) = emitted_refs s @ e
       \<and> set e \<subseteq> set (case popped of None \<Rightarrow> [] | Some r \<Rightarrow> [r]) \<and> distinct e"
  by (simp add: send_guard_def emitted_refs_def split: option.splits)

lemma owned_pop_main:
  assumes "distinct (E @ [] @ Q @ T)" and "list_all (\<lambda>r. r < n) (E @ [] @ Q @ T)"
    and "distinct T'" and "set T' \<subseteq> set T"
    and "\<And>r. popped = Some r \<Longrightarrow> r \<in> set T \<and> r \<notin> set T'"
  shows "distinct (E @ (case popped of None \<Rightarrow> [] | Some r \<Rightarrow> [r]) @ Q @ T')
       \<and> list_all (\<lambda>r. r < (n::nat)) (E @ (case popped of None \<Rightarrow> [] | Some r \<Rightarrow> [r]) @ Q @ T')"
  using assms by (cases popped) (auto simp: list_all_iff)

lemma owned_pop_sweeper:
  assumes "distinct (E @ P @ [] @ T)" and "list_all (\<lambda>r. r < n) (E @ P @ [] @ T)"
    and "distinct T'" and "set T' \<subseteq> set T"
    and "\<And>r. popped = Some r \<Longrightarrow> r \<in> set T \<and> r \<notin> set T'"
  shows "distinct (E @ P @ (case popped of None \<Rightarrow> [] | Some r \<Rightarrow> [r]) @ T')
       \<and> list_all (\<lambda>r. r < (n::nat)) (E @ P @ (case popped of None \<Rightarrow> [] | Some r \<Rightarrow> [r]) @ T')"
  using assms by (cases popped) (auto simp: list_all_iff)

lemma owned_guard_main:
  assumes "distinct (E @ P @ Q @ T)" and "list_all (\<lambda>r. r < n) (E @ P @ Q @ T)"
    and "set e \<subseteq> set P" and "distinct e"
  shows "distinct ((E @ e) @ [] @ Q @ T) \<and> list_all (\<lambda>r. r < (n::nat)) ((E @ e) @ [] @ Q @ T)"
  using assms by (auto simp: list_all_iff)

lemma owned_guard_sweeper:
  assumes "distinct (E @ P @ Q @ T)" and "list_all (\<lambda>r. r < n) (E @ P @ Q @ T)"
    and "set e \<subseteq> set Q" and "distinct e"
  shows "distinct ((E @ e) @ P @ [] @ T) \<and> list_all (\<lambda>r. r < (n::nat)) ((E @ e) @ P @ [] @ T)"
  using assms by (auto simp: list_all_iff)

lemma owned_create:
  assumes "distinct (E @ P @ Q @ T)" and "list_all (\<lambda>r. r < n) (E @ P @ Q @ T)"
    and "distinct T'" and "set T' \<subseteq> insert n (set T)"
  shows "distinct (E @ [] @ Q @ T') \<and> list_all (\<lambda>r. r < Suc n) (E @ [] @ Q @ T')"
  using assms by (auto simp: list_all_iff less_Suc_eq)

lemma owned_drop_pending:
  assumes "distinct (E @ P @ Q @ T)" and "list_all (\<lambda>r. r < n) (E @ P @ Q @ T)"
  shows "distinct (E @ [] @ Q @ T) \<and> list_all (\<lambda>r. r < (n::nat)) (E @ [] @ Q @ T)"
  using assms by (auto simp: list_all_iff)


lemma emitted_refs_update:
  "emitted_refs (heap_update f s) = emitted_refs s"
  "emitted_refs (active_flows_update g s) = emitted_refs s"
  "emitted_refs (PACKET_COUNT_update h s) = emitted_refs s"
  "emitted_refs (ticks_update h s) = emitted_refs s"
  "emitted_refs (main_pc_update m s) = emitted_refs s"
  "emitted_refs (sweeper_pc_update w s) = emitted_refs s"
  by (simp_all add: emitted_refs_def)

lemma invariant_deliver:
  "table_invariant s \<Longrightarrow> table_invariant (deliver pkt s)"
  by (auto simp: deliver_def table_invariant_def owned_def emitted_refs_update Let_def split: option.splits)

lemma invariant_interrupt:
  assumes "table_invariant s"
  shows "table_invariant (interrupt s)"
proof -
  from assms have "distinct (emitted_refs s @ main_pending (main_pc s)
        @ sweeper_pending (sweeper_pc s) @ map snd (active_flows s))"
    and "list_all (\<lambda>r. r < length (heap s)) (emitted_refs s @ main_pending (main_pc s)
        @ sweeper_pending (sweeper_pc s) @ map snd (active_flows s))"
    and k: "distinct (map fst (active_flows s))"
    by (simp_all add: table_invariant_def owned_def emitted_refs_update)
  from owned_drop_pending[OF this(1,2)] k
  have "table_invariant (s\<lparr>main_pc := pc'\<rparr>)" if "main_pending pc' = []" for pc'
    using that by (simp add: table_invariant_def owned_def emitted_refs_update)
  with assms show ?thesis
    by (cases "main_pc s") (simp_all add: interrupt_def)
qed

lemma invariant_pop_main:
  assumes "table_invariant s" and "main_pending (main_pc s) = []"
    and "dict_pop (active_flows s) key = (popped, table)"
    and "main_pending pc' = (case popped of None \<Rightarrow> [] | Some r \<Rightarrow> [r])"
  shows "table_invariant (s\<lparr>active_flows := table, main_pc := pc'\<rparr>)"
proof -
  from assms(1,2) have d: "distinct (emitted_refs s @ [] @ sweeper_pending (sweeper_pc s) @ map snd (active_flows s))"
    and l: "list_all (\<lambda>r. r < length (heap s)) (emitted_refs s @ []
        @ sweeper_pending (sweeper_pc s) @ map snd (active_flows s))"
    and k: "distinct (map fst (active_flows s))"
    by (simp_all add: table_invariant_def owned_def emitted_refs_update)
  from d have dv: "distinct (map snd (active_flows s))" by simp
  have p: "\<And>r. popped = Some r \<Longrightarrow>
      r \<in> set (map snd (active_flows s)) \<and> r \<notin> set (map snd table)"
    using dict_pop_popped[OF _ dv] assms(3) by blast
  from owned_pop_main[OF d l dict_pop_table(2)[OF assms(3) dv] dict_pop_table(1)[OF assms(3)] p]
    dict_pop_table(3)[OF assms(3) k] assms(4)
  show ?thesis
    by (simp add: table_invariant_def owned_def emitted_refs_update)
qed

lemma invariant_pop_sweeper:
  assumes "table_invariant s" and "sweeper_pending (sweeper_pc s) = []"
    and "dict_pop (active_flows s) key = (popped, table)"
    and "sweeper_pending pc' = (case popped of None \<Rightarrow> [] | Some r \<Rightarrow> [r])"
  shows "table_invariant (s\<lparr>active_flows := table, sweeper_pc := pc'\<rparr>)"
proof -
  from assms(1,2) have d: "distinct (emitted_refs s @ main_pending (main_pc s) @ [] @ map snd (active_flows s))"
    and l: "list_all (\<lambda>r. r < length (heap s)) (emitted_refs s @ main_pending (main_pc s)
        @ [] @ map snd (active_flows s))"
    and k: "distinct (map fst (active_flows s))"
    by (simp_all add: table_invariant_def owned_def emitted_refs_update)
  from d have dv: "distinct (map snd (active_flows s))" by simp
  have p: "\<And>r. popped = Some r \<Longrightarrow>
      r \<in> set (map snd (active_flows s)) \<and> r \<notin> set (map snd table)"
    using dict_pop_popped[OF _ dv] assms(3) by blast
  from owned_pop_sweeper[OF d l dict_pop_table(2)[OF assms(3) dv] dict_pop_table(1)[OF assms(3)] p]
    dict_pop_table(3)[OF assms(3) k] assms(4)
  show ?thesis
    by (simp add: table_invariant_def owned_def emitted_refs_update)
qed

lemma invariant_guard_main:
  assumes "table_invariant s"
    and "main_pending (main_pc s) = (case popped of None \<Rightarrow> [] | Some r \<Rightarrow> [r])"
    and "main_pending pc' = []"
  shows "table_invariant ((send_guard path key popped s)\<lparr>main_pc := pc'\<rparr>)"
proof -
  from assms(1) have d: "distinct (emitted_refs s @ main_pending (main_pc s)
        @ sweeper_pending (sweeper_pc s) @ map snd (active_flows s))"
    and l: "list_all (\<lambda>r. r < length (heap s)) (emitted_refs s @ main_pending (main_pc s)
        @ sweeper_pending (sweeper_pc s) @ map snd (active_flows s))"
    and k: "distinct (map fst (active_flows s))"
    by (simp_all add: table_invariant_def owned_def emitted_refs_update)
  from send_guard_emitted[of path key popped s] assms(2) obtain e where
    e: "emitted_refs (send_guard path key popped s) = emitted_refs s @ e"
       "set e \<subseteq> set (main_pending (main_pc s))" "distinct e"
    by auto
  from owned_guard_main[OF d l e(2,3)] k e(1) assms(3)
  show ?thesis
    by (simp add: table_invariant_def owned_def emitted_refs_update send_guard_fields)
qed

lemma invariant_guard_sweeper:
  assumes "table_invariant s"
    and "sweeper_pending (sweeper_pc s) = (case popped of None \<Rightarrow> [] | Some r \<Rightarrow> [r])"
    and "sweeper_pending pc' = []"
  shows "table_invariant ((send_guard path key popped s)\<lparr>sweeper_pc := pc'\<rparr>)"
proof -
  from assms(1) have d: "distinct (emitted_refs s @ main_pending (main_pc s)
        @ sweeper_pending (sweeper_pc s) @ map snd (active_flows s))"
    and l: "list_all (\<lambda>r. r < length (heap s)) (emitted_refs s @ main_pending (main_pc s)
        @ sweeper_pending (sweeper_pc s) @ map snd (active_flows s))"
    and k: "distinct (map fst (active_flows s))"
    by (simp_all add: table_invariant_def owned_def emitted_refs_update)
  from send_guard_emitted[of path key popped s] assms(2) obtain e where
    e: "emitted_refs (send_guard path key popped s) = emitted_refs s @ e"
       "set e \<subseteq> set (sweeper_pending (sweeper_pc s))" "distinct e"
    by auto
  from owned_guard_sweeper[OF d l e(2,3)] k e(1) assms(3)
  show ?thesis
    by (simp add: table_invariant_def owned_def emitted_refs_update send_guard_fields)
qed

lemma invariant_create:
  assumes "table_invariant s" and "main_pending pc' = []"
  shows "table_invariant (s\<lparr>heap := heap s @ [flow],
                            active_flows := dict_set (active_flows s) key (length (heap s)),
                            ticks := t, main_pc := pc'\<rparr>)"
proof -
  from assms(1) have d: "distinct (emitted_refs s @ main_pending (main_pc s)
        @ sweeper_pending (sweeper_pc s) @ map snd (active_flows s))"
    and l: "list_all (\<lambda>r. r < length (heap s)) (emitted_refs s @ main_pending (main_pc s)
        @ sweeper_pending (sweeper_pc s) @ map snd (active_flows s))"
    and k: "distinct (map fst (active_flows s))"
    by (simp_all add: table_invariant_def owned_def emitted_refs_update)
  from l have fresh: "length (heap s) \<notin> set (map snd (active_flows s))"
    by (auto simp: list_all_iff)
  from d have dv: "distinct (map snd (active_flows s))" by simp
  from owned_create[OF d l dict_set_distinct_values[OF dv fresh, of key] dict_set_values]
    dict_set_distinct_keys[OF k, of key "length (heap s)"] assms(2)
  show ?thesis
    by (simp add: table_invariant_def owned_def emitted_refs_update)
qed

lemma invariant_pc_only:
  assumes "table_invariant s" and "main_pending pc' = main_pending (main_pc s)"
  shows "table_invariant (s\<lparr>main_pc := pc'\<rparr>)"
  using assms by (simp add: table_invariant_def owned_def emitted_refs_update)

lemma invariant_add:
  assumes "table_invariant s" and "main_pending (main_pc s) = []" and "main_pending pc' = []"
  shows "table_invariant (s\<lparr>heap := (heap s)[r := flow], ticks := t, main_pc := pc'\<rparr>)"
  using assms by (simp add: table_invariant_def owned_def emitted_refs_update)

lemma invariant_main_step:
  assumes "table_invariant s"
  shows "table_invariant (main_step clock s)"
proof (cases "main_pc s")
  case M_sniff
  with assms show ?thesis by (simp add: main_step_def)
next
  case (M_check l)
  with assms show ?thesis by (simp add: main_step_def invariant_pc_only)
next
  case (M_create l)
  with assms show ?thesis by (simp add: main_step_def Let_def invariant_create)
next
  case (M_fetch l)
  with assms show ?thesis by (simp add: main_step_def invariant_pc_only split: option.splits)
next
  case (M_add l r)
  with assms show ?thesis by (simp add: main_step_def Let_def invariant_add)
next
  case (M_test l r)
  with assms show ?thesis by (simp add: main_step_def Let_def invariant_pc_only)
next
  case (M_send_pop l)
  obtain popped table where p: "dict_pop (active_flows s) (h_flow_key l) = (popped, table)"
    by (cases "dict_pop (active_flows s) (h_flow_key l)")
  have "main_pending (M_send_guard l popped) = (case popped of None \<Rightarrow> [] | Some r \<Rightarrow> [r])"
    by (cases popped) simp_all
  from invariant_pop_main[OF assms _ p this] M_send_pop p show ?thesis
    by (simp add: main_step_def)
next
  case (M_send_guard l popped)
  then have "main_pending (main_pc s) = (case popped of None \<Rightarrow> [] | Some r \<Rightarrow> [r])"
    by (cases popped) simp_all
  from invariant_guard_main[OF assms this, of M_sniff EarlyEmit "h_flow_key l"] M_send_guard
  show ?thesis by (simp add: main_step_def)
next
  case (M_flush keys)
  show ?thesis
  proof (cases keys)
    case Nil
    with assms M_flush show ?thesis by (simp add: main_step_def invariant_pc_only)
  next
    case (Cons key rest)
    obtain popped table where p: "dict_pop (active_flows s) key = (popped, table)"
      by (cases "dict_pop (active_flows s) key")
    have "main_pending (M_flush_guard key popped rest) = (case popped of None \<Rightarrow> [] | Some r \<Rightarrow> [r])"
      by (cases popped) simp_all
    from invariant_pop_main[OF assms _ p this] M_flush Cons p show ?thesis
      by (simp add: main_step_def)
  qed
next
  case (M_flush_guard key popped keys)
  then have "main_pending (main_pc s) = (case popped of None \<Rightarrow> [] | Some r \<Rightarrow> [r])"
    by (cases popped) simp_all
  from invariant_guard_main[OF assms this, of "M_flush keys" Shutdown key] M_flush_guard
  show ?thesis by (simp add: main_step_def)
next
  case (M_exit e)
  with assms show ?thesis by (simp add: main_step_def)
qed

lemma invariant_sweeper_step:
  assumes "table_invariant s"
  shows "table_invariant (sweeper_step clock s)"
proof (cases "\<exists>e. main_pc s = M_exit e")
  case True
  with assms show ?thesis by (auto simp: sweeper_step_def)
next
  case False
  then have step: "sweeper_step clock s =
        (case sweeper_pc s of
           S_sleep \<Rightarrow>
             (let now = clock (ticks s);
                  expired = map fst (filter (\<lambda>(k, r). now - last_seen (heap s ! r) > FLOW_TIMEOUT)
                                       (active_flows s))
              in s\<lparr>ticks := ticks s + 1, sweeper_pc := S_loop expired\<rparr>)
         | S_loop [] \<Rightarrow> s\<lparr>sweeper_pc := S_sleep\<rparr>
         | S_loop (key # keys) \<Rightarrow>
             (case dict_pop (active_flows s) key of
                (popped, table) \<Rightarrow> s\<lparr>active_flows := table, sweeper_pc := S_guard key popped keys\<rparr>)
         | S_guard key popped keys \<Rightarrow>
             (send_guard Timeout key popped s)\<lparr>sweeper_pc := S_loop keys\<rparr>)"
    by (cases "main_pc s") (simp_all add: sweeper_step_def)
  show ?thesis
  proof (cases "sweeper_pc s")
    case S_sleep
    with assms show ?thesis
      unfolding step by (simp add: Let_def table_invariant_def owned_def emitted_refs_update)
  next
    case (S_loop keys)
    show ?thesis
    proof (cases keys)
      case Nil
      with assms S_loop show ?thesis
        unfolding step by (simp add: table_invariant_def owned_def emitted_refs_update)
    next
      case (Cons key rest)
      obtain popped table where p: "dict_pop (active_flows s) key = (popped, table)"
        by (cases "dict_pop (active_flows s) key")
      have "sweeper_pending (S_guard key popped rest) = (case popped of None \<Rightarrow> [] | Some r \<Rightarrow> [r])"
        by (cases popped) simp_all
      from invariant_pop_sweeper[OF assms _ p this] S_loop Cons p show ?thesis
        unfolding step by simp
    qed
  next
    case (S_guard key popped keys)
    then have "sweeper_pending (sweeper_pc s) = (case popped of None \<Rightarrow> [] | Some r \<Rightarrow> [r])"
      by (cases popped) simp_all
    from invariant_guard_sweeper[OF assms this, of "S_loop keys" Timeout key] S_guard
    show ?thesis unfolding step by simp
  qed
qed

lemma invariant_step:
  "table_invariant s \<Longrightarrow> table_invariant (step clock a s)"
  by (cases a) (simp_all add: invariant_deliver invariant_interrupt invariant_main_step invariant_sweeper_step)

lemma invariant_run:
  "table_invariant s \<Longrightarrow> table_invariant (run clock schedule s)"
  by (induction schedule arbitrary: s) (simp_all add: invariant_step)

lemma invariant_initial: "table_invariant initial_system"
  by (simp add: table_invariant_def owned_def emitted_refs_update initial_system_def emitted_refs_def)

lemma packets_of_add_packet:
  "packets_of (add_packet f p d t now) = packets_of f + 1"
proof -
  have tcp: "\<And>g fl w ofs. packets_of (add_packet_tcp g d fl w ofs) = packets_of g"
    by (simp add: packets_of_def add_packet_tcp_def Let_def)
  have dir: "\<And>g n. packets_of (add_packet_direction g d n t) = packets_of g + 1"
    by (simp add: packets_of_def add_packet_direction_def Let_def split: option.splits)
  have iat: "\<And>g. packets_of (add_packet_iat g t) = packets_of g"
    by (simp add: packets_of_def add_packet_iat_def Let_def split: option.splits)
  have upd: "\<And>g x. packets_of (last_seen_update x g) = packets_of g"
    "\<And>g x. packets_of (last_pkt_time_update x g) = packets_of g"
    "\<And>g x. packets_of (all_pkt_lengths_update x g) = packets_of g"
    by (simp_all add: packets_of_def)
  show ?thesis
    by (cases "transport p") (simp_all add: add_packet_def Let_def tcp dir iat upd)
qed

lemma emitted_guarded_heap_append:
  "emitted_guarded s \<Longrightarrow> emitted_guarded (s\<lparr>heap := heap s @ [flow], active_flows := a, ticks := t, main_pc := pc\<rparr>)"
  by (auto simp: emitted_guarded_def list_all_iff nth_append)

lemma emitted_guarded_heap_update:
  assumes "emitted_guarded s" and "packets_of flow \<ge> packets_of (heap s ! r)"
  shows "emitted_guarded (s\<lparr>heap := (heap s)[r := flow], ticks := t, main_pc := pc\<rparr>)"
proof -
  have "r' < length (heap s) \<and> MIN_PACKETS \<le> packets_of ((heap s)[r := flow] ! r')"
    if "(key, r', path) \<in> set (emitted s)" for key r' path
  proof -
    from assms(1) that have b: "r' < length (heap s)" "MIN_PACKETS \<le> packets_of (heap s ! r')"
      by (auto simp: emitted_guarded_def list_all_iff)
    show ?thesis
    proof (cases "r' = r")
      case True
      with b assms(2) show ?thesis by simp
    next
      case False
      with b show ?thesis by simp
    qed
  qed
  then show ?thesis
    by (auto simp: emitted_guarded_def list_all_iff)
qed

lemma emitted_guarded_send_guard:
  assumes "emitted_guarded s" and "\<And>r. popped = Some r \<Longrightarrow> r < length (heap s)"
  shows "emitted_guarded (send_guard path key popped s)"
  using assms
  by (auto simp: emitted_guarded_def send_guard_def list_all_iff split: option.splits)

lemma emitted_guarded_other:
  "emitted_guarded (main_pc_update m s) = emitted_guarded s"
  "emitted_guarded (sweeper_pc_update w s) = emitted_guarded s"
  "emitted_guarded (active_flows_update g s) = emitted_guarded s"
  "emitted_guarded (ticks_update h s) = emitted_guarded s"
  "emitted_guarded (PACKET_COUNT_update h s) = emitted_guarded s"
  by (simp_all add: emitted_guarded_def)

lemma main_pending_bound:
  assumes "table_invariant s" and "r \<in> set (main_pending (main_pc s))"
  shows "r < length (heap s)"
  using assms by (auto simp: table_invariant_def owned_def emitted_refs_update list_all_iff)

lemma sweeper_pending_bound:
  assumes "table_invariant s" and "r \<in> set (sweeper_pending (sweeper_pc s))"
  shows "r < length (heap s)"
  using assms by (auto simp: table_invariant_def owned_def emitted_refs_update list_all_iff)

lemma guarded_main_step:
  assumes "table_invariant s" and "emitted_guarded s"
  shows "emitted_guarded (main_step clock s)"
proof (cases "main_pc s")
  case (M_create l)
  with assms(2) show ?thesis
    by (simp add: main_step_def Let_def emitted_guarded_heap_append)
next
  case (M_add l r)
  with assms(2) show ?thesis
    by (simp add: main_step_def Let_def emitted_guarded_heap_update packets_of_add_packet)
next
  case (M_send_guard l popped)
  with main_pending_bound[OF assms(1)] have "\<And>r. popped = Some r \<Longrightarrow> r < length (heap s)"
    by simp
  from emitted_guarded_send_guard[OF assms(2) this] M_send_guard show ?thesis
    by (simp add: main_step_def emitted_guarded_other)
next
  case (M_flush_guard key popped keys)
  with main_pending_bound[OF assms(1)] have "\<And>r. popped = Some r \<Longrightarrow> r < length (heap s)"
    by simp
  from emitted_guarded_send_guard[OF assms(2) this] M_flush_guard show ?thesis
    by (simp add: main_step_def emitted_guarded_other)
next
  case (M_flush keys)
  with assms(2) show ?thesis
    by (cases keys) (simp_all add: main_step_def emitted_guarded_other split: prod.splits)
qed (use assms(2) in \<open>simp_all add: main_step_def Let_def emitted_guarded_other split: option.splits prod.splits\<close>)

lemma guarded_sweeper_step:
  assumes "table_invariant s" and "emitted_guarded s"
  shows "emitted_guarded (sweeper_step clock s)"
proof (cases "sweeper_pc s")
  case S_sleep
  with assms(2) show ?thesis
    by (cases "main_pc s") (simp_all add: sweeper_step_def Let_def emitted_guarded_other)
next
  case (S_loop keys)
  with assms(2) show ?thesis
    by (cases "main_pc s"; cases keys)
       (simp_all add: sweeper_step_def emitted_guarded_other split: prod.splits)
next
  case (S_guard key popped keys)
  with sweeper_pending_bound[OF assms(1)] have "\<And>r. popped = Some r \<Longrightarrow> r < length (heap s)"
    by simp
  from emitted_guarded_send_guard[OF assms(2) this] S_guard assms(2) show ?thesis
    by (cases "main_pc s") (simp_all add: sweeper_step_def emitted_guarded_other)
qed

lemma guarded_step:
  assumes "table_invariant s" and "emitted_guarded s"
  shows "emitted_guarded (step clock a s)"
proof (cases a)
  case (Deliver pkt)
  with assms(2) show ?thesis
    by (simp add: deliver_def Let_def emitted_guarded_other split: option.splits)
next
  case Interrupt
  with assms(2) show ?thesis
    by (cases "main_pc s") (simp_all add: interrupt_def emitted_guarded_other)
next
  case Main
  with assms show ?thesis by (simp add: guarded_main_step)
next
  case Sweeper
  with assms show ?thesis by (simp add: guarded_sweeper_step)
qed

lemma guarded_run:
  "table_invariant s \<Longrightarrow> emitted_guarded s \<Longrightarrow> emitted_guarded (run clock schedule s)"
  by (induction schedule arbitrary: s) (simp_all add: invariant_step guarded_step)

lemma guarded_initial: "emitted_guarded initial_system"
  by (simp add: emitted_guarded_def initial_system_def)

text \<open>
  Claim C1 (as amended). Under every schedule of packet arrivals, capture-thread
  statements, timeout-checker statements and the shutdown interrupt, and every clock, no
  flow record is handed to \<open>get_features\<close> twice; every record handed over holds at
  least \<open>MIN_PACKETS\<close> packets and is no longer in the table. A record is one object
  created when a key is inserted, so a key can have several over time. Table membership
  tests, lookups, stores and \<open>pop\<close> are atomic, \<open>add_packet\<close> and the scan for
  expired keys are one step each.
\<close>

theorem record_emitted_at_most_once:
  "distinct (emitted_refs (run clock schedule initial_system))
   \<and> (\<forall>(key, r, path) \<in> set (emitted (run clock schedule initial_system)).
         r < length (heap (run clock schedule initial_system))
       \<and> MIN_PACKETS \<le> packets_of (heap (run clock schedule initial_system) ! r)
       \<and> r \<notin> set (map snd (active_flows (run clock schedule initial_system))))"
proof -
  let ?s = "run clock schedule initial_system"
  have inv: "table_invariant ?s"
    by (rule invariant_run[OF invariant_initial])
  have g: "emitted_guarded ?s"
    by (rule guarded_run[OF invariant_initial guarded_initial])
  from inv have d: "distinct (emitted_refs ?s)"
    and disj: "set (emitted_refs ?s) \<inter> set (map snd (active_flows ?s)) = {}"
    by (auto simp: table_invariant_def owned_def emitted_refs_update)
  have "\<forall>(key, r, path) \<in> set (emitted ?s). r \<in> set (emitted_refs ?s)"
    by (force simp: emitted_refs_def)
  with disj have "\<forall>(key, r, path) \<in> set (emitted ?s). r \<notin> set (map snd (active_flows ?s))"
    by blast
  with d g show ?thesis
    by (auto simp: emitted_guarded_def list_all_iff)
qed


lemmas system_defs =
  deliver_def interrupt_def main_step_def sweeper_step_def send_guard_def dict_pop_def
  packet_endpoints_def h_flow_key_def get_flow_key_def packets_of_def
  add_packet_def add_packet_iat_def add_packet_direction_def add_packet_tcp_def flag_inc_def
  CICFlow_init_def initial_system_def MIN_PACKETS_def FLOW_TIMEOUT_def Let_def

lemma handshake_run:
  "emitted (run fixture_clock fixture_handshake_schedule initial_system)
     = [(fixture_key, 0, EarlyEmit), (fixture_key, 1, Timeout)]"
  by (simp add: fixture_handshake_schedule_def fixture_clock_def fixture_client_def
      fixture_server_def fixture_tcp_packet_def fixture_key_def system_defs)

lemma race_run:
  "emitted (run fixture_late_clock fixture_race_schedule initial_system) = []
   \<and> active_flows (run fixture_late_clock fixture_race_schedule initial_system) = []
   \<and> main_pc (run fixture_late_clock fixture_race_schedule initial_system) = M_sniff
   \<and> sweeper_pc (run fixture_late_clock fixture_race_schedule initial_system) = S_sleep
   \<and> map packets_of (heap (run fixture_late_clock fixture_race_schedule initial_system)) = [2]
   \<and> map syn_count (heap (run fixture_late_clock fixture_race_schedule initial_system)) = [2]"
  by (simp add: fixture_race_schedule_def fixture_late_clock_def fixture_client_def
      fixture_tcp_packet_def fixture_key_def system_defs)

theorem record_emitted_at_most_once_witness:
  "emitted (run fixture_clock fixture_handshake_schedule initial_system)
     = [(fixture_key, 0, EarlyEmit), (fixture_key, 1, Timeout)]
   \<and> distinct (emitted_refs (run fixture_clock fixture_handshake_schedule initial_system))
   \<and> MIN_PACKETS \<le> packets_of (heap (run fixture_clock fixture_handshake_schedule initial_system) ! 0)
   \<and> MIN_PACKETS \<le> packets_of (heap (run fixture_clock fixture_handshake_schedule initial_system) ! 1)
   \<and> 0 \<notin> set (map snd (active_flows (run fixture_clock fixture_handshake_schedule initial_system)))
   \<and> 1 \<notin> set (map snd (active_flows (run fixture_clock fixture_handshake_schedule initial_system)))"
  using record_emitted_at_most_once[of fixture_clock fixture_handshake_schedule]
  by (simp add: handshake_run)

text \<open>
  Claim C1 as stated fails. One thread at a time, an ordinary TCP connection has its key
  emitted twice: the record of SYN and SYN-ACK by the early emit, the record of the
  following packets by the timeout. And when the timeout checker pops a one-packet record
  between the capture thread's lookup and its \<open>add_packet\<close>, the record ends with two
  packets, outside the table and never emitted, with both threads idle.
\<close>

theorem flow_key_emitted_twice_counterexample:
  "map fst (emitted (run fixture_clock fixture_handshake_schedule initial_system))
     = [fixture_key, fixture_key]
   \<and> \<not> distinct (map fst (emitted (run fixture_clock fixture_handshake_schedule initial_system)))
   \<and> map packets_of (heap (run fixture_late_clock fixture_race_schedule initial_system)) = [2]
   \<and> emitted (run fixture_late_clock fixture_race_schedule initial_system) = []
   \<and> active_flows (run fixture_late_clock fixture_race_schedule initial_system) = []
   \<and> main_pc (run fixture_late_clock fixture_race_schedule initial_system) = M_sniff
   \<and> sweeper_pc (run fixture_late_clock fixture_race_schedule initial_system) = S_sleep"
  by (simp add: handshake_run race_run)

end
